theory Spec2Isabelle
  imports Main "HOL-Library.Char_ord" "HOL-Library.List_Lexorder"
    "HOL-Library.Product_Lexorder" "HOL-Library.Multiset"
begin

section \<open>The status aggregator \<^verbatim>\<open>scripts/aggregate-status.py\<close>\<close>

text \<open>
  The script reads every \<^verbatim>\<open>*.json\<close> file of the directory \<^verbatim>\<open>agent-status\<close>, sorts the
  records and writes the board \<^verbatim>\<open>AGENT-STATUS.md\<close>. The embedding follows the script
  function by function. What the script takes from Python's library is modelled as
  follows.
  \<^item> A Python \<^verbatim>\<open>str\<close> is a \<open>string\<close>; one \<open>char\<close> stands for one character, and the order
    of \<open>char\<close> is the order of code points, so \<open><\<close> on \<open>string\<close> is Python's \<open><\<close> on \<^verbatim>\<open>str\<close>.
  \<^item> The value \<^verbatim>\<open>json.load\<close> returns is a \<open>json\<close>. The fields of an object are strings, as
    in the data model of the specification; objects with other field values and
    floating-point numbers are outside the model.
  \<^item> A point in time is an \<open>int\<close>: the microseconds since the epoch, in UTC. Every call of
    \<^verbatim>\<open>datetime.now(timezone.utc)\<close> takes the next reading of the clock of the world.
  \<^item> \<^verbatim>\<open>datetime.isoformat\<close> and \<^verbatim>\<open>datetime.fromisoformat\<close> are parameters (\<open>pylib\<close>).
  \<^item> The text written to the board and to the console is kept as the sequence of the
    \<^verbatim>\<open>f.write\<close> and \<^verbatim>\<open>print\<close> calls, each with the values it interpolates.
\<close>

subsection \<open>Values\<close>

type_synonym agent = "(string \<times> string) list"

datatype json =
    JNull
  | JBool bool
  | JNum int
  | JStr string
  | JArr "json list"
  | JObj agent

text \<open>Python's truth value of a loaded value, as \<^verbatim>\<open>if agent_data:\<close> tests it.\<close>

fun truthy :: "json \<Rightarrow> bool" where
  "truthy JNull = False"
| "truthy (JBool b) = b"
| "truthy (JNum n) = (n \<noteq> 0)"
| "truthy (JStr s) = (s \<noteq> [])"
| "truthy (JArr xs) = (xs \<noteq> [])"
| "truthy (JObj d) = (d \<noteq> [])"

text \<open>\<^verbatim>\<open>a.get(k)\<close> and \<^verbatim>\<open>a.get(k, default)\<close> on a dict.\<close>

definition get :: "agent \<Rightarrow> string \<Rightarrow> string option" where
  "get a k = map_of a k"

definition get_or :: "agent \<Rightarrow> string \<Rightarrow> string \<Rightarrow> string" where
  "get_or a k d = (case map_of a k of None \<Rightarrow> d | Some v \<Rightarrow> v)"

subsection \<open>Exceptions\<close>

text \<open>
  The exceptions that leave \<^verbatim>\<open>aggregate_status\<close>. \<open>AttributeError v\<close> is raised by
  \<^verbatim>\<open>a.get\<close> when \<open>v\<close> is not a dict, \<open>UnicodeDecodeError\<close> by reading a file that is not
  UTF-8, \<open>PermissionError\<close> by opening an output file that cannot be written,
  \<open>FileNotFoundError\<close> by opening a file for writing in a directory that does not exist.
\<close>

datatype error =
    AttributeError json
  | UnicodeDecodeError string
  | PermissionError
  | FileNotFoundError

subsection \<open>Time\<close>

text \<open>
  What \<^verbatim>\<open>datetime.fromisoformat\<close> does with a string: it raises \<^verbatim>\<open>ValueError\<close>, or returns a
  datetime without a UTC offset (naive), or one with an offset (aware; the instant is
  kept).
\<close>

datatype parsed = ValueError | Naive | Aware int

record pylib =
  isoformat :: "int \<Rightarrow> string"
  fromisoformat :: "string \<Rightarrow> parsed"

text \<open>\<^verbatim>\<open>s.replace(old, new)\<close>: every occurrence of \<open>old\<close>, from the left, without overlap.\<close>

function py_replace :: "string \<Rightarrow> string \<Rightarrow> string \<Rightarrow> string" where
  "py_replace old new [] = (if old = [] then new else [])"
| "py_replace old new (c # cs) =
     (if old = [] then new @ c # py_replace old new cs
      else if take (length old) (c # cs) = old
        then new @ py_replace old new (drop (length old) (c # cs))
      else c # py_replace old new cs)"
  by pat_completeness auto
termination
  by (relation "measure (\<lambda>(old, new, s). length s)") auto

text \<open>\<^verbatim>\<open>datetime.now(timezone.utc).isoformat().replace('+00:00', 'Z')\<close> of an instant.\<close>

definition utc_z :: "pylib \<Rightarrow> int \<Rightarrow> string" where
  "utc_z L t = py_replace ''+00:00'' ''Z'' (isoformat L t)"

text \<open>Decimal digits, as \<^verbatim>\<open>%d\<close>, \<^verbatim>\<open>%02d\<close> and \<^verbatim>\<open>%06d\<close> print a number.\<close>

definition digit_char :: "nat \<Rightarrow> char" where
  "digit_char d = ''0123456789'' ! (d mod 10)"

fun digits :: "nat \<Rightarrow> string" where
  "digits n = (if n < 10 then [digit_char n] else digits (n div 10) @ [digit_char n])"

definition zero_pad :: "nat \<Rightarrow> nat \<Rightarrow> string" where
  "zero_pad w n = replicate (w - length (digits n)) (CHR ''0'') @ digits n"

definition str_int :: "int \<Rightarrow> string" where
  "str_int i = (if i < 0 then ''-'' @ digits (nat (- i)) else digits (nat i))"

text \<open>
  \<^verbatim>\<open>str(td)\<close> of a \<^verbatim>\<open>timedelta\<close>, given as its microseconds. A timedelta is kept as days,
  seconds (0 to 86399) and microseconds (0 to 999999); only the days can be negative.
\<close>

definition str_timedelta :: "int \<Rightarrow> string" where
  "str_timedelta td =
     (let days = td div 86400000000;
          seconds = nat ((td mod 86400000000) div 1000000);
          microseconds = nat (td mod 1000000);
          mm = seconds div 60;
          ss = seconds mod 60;
          hh = mm div 60;
          s = digits hh @ '':'' @ zero_pad 2 (mm mod 60) @ '':'' @ zero_pad 2 ss;
          s1 = (if days \<noteq> 0
                then str_int days @ '' day'' @ (if \<bar>days\<bar> \<noteq> 1 then ''s'' else '''') @ '', '' @ s
                else s)
      in if microseconds \<noteq> 0 then s1 @ ''.'' @ zero_pad 6 microseconds else s1)"

text \<open>\<^verbatim>\<open>s.split('.')[0]\<close>: the text before the first dot.\<close>

definition split_dot_0 :: "string \<Rightarrow> string" where
  "split_dot_0 s = takeWhile (\<lambda>c. c \<noteq> CHR ''.'') s"

declare digits.simps [simp del]

subsection \<open>The world\<close>

text \<open>
  A file of the status directory, by what \<^verbatim>\<open>open\<close> and \<^verbatim>\<open>json.load\<close> do with it:
  \<^item> \<open>Json v\<close>: the text is JSON and loads as \<open>v\<close>;
  \<^item> \<open>Malformed e\<close>: the text is not JSON, \<^verbatim>\<open>json.load\<close> raises \<^verbatim>\<open>JSONDecodeError\<close> \<open>e\<close>;
  \<^item> \<open>Unreadable e\<close>: \<^verbatim>\<open>open\<close> or \<^verbatim>\<open>read\<close> raises \<^verbatim>\<open>OSError\<close> \<open>e\<close> (\<^verbatim>\<open>IOError\<close> is \<^verbatim>\<open>OSError\<close>);
  \<^item> \<open>Undecodable e\<close>: the bytes are not UTF-8, \<^verbatim>\<open>read\<close> raises \<^verbatim>\<open>UnicodeDecodeError\<close> \<open>e\<close>,
    which is a \<^verbatim>\<open>ValueError\<close> and neither a \<^verbatim>\<open>JSONDecodeError\<close> nor an \<^verbatim>\<open>OSError\<close>.
\<close>

datatype status_file =
    Json json
  | Malformed string
  | Unreadable string
  | Undecodable string

text \<open>One constructor for each \<^verbatim>\<open>print\<close> of the script.\<close>

datatype msg =
    Warning string string
  | CreatingDir
  | Created string
  | NoFiles
  | Success
  | ActiveAgents nat
  | BlockedAgents nat
  | IdleAgents nat
  | ErrorAggregating error

text \<open>The four status markers of the Active Work table.\<close>

datatype marker = Arrows | NoEntry | Hourglass | Question

text \<open>
  One constructor for each \<^verbatim>\<open>f.write\<close> of the script; the three writes that open a table
  (title, column names, rule) are one constructor.
\<close>

datatype line =
    Title
  | LastUpdated string
  | TotalAgents nat
  | ActiveHead
  | ActiveRow string marker string string string string string
  | BlockedHead
  | BlockedRow string string string string
  | IdleHead
  | IdleRow string string string
  | CompletedHead
  | CompletedRow string string string string
  | StatsHead
  | StatActive nat
  | StatBlocked nat
  | StatIdle nat
  | StatCompleted nat
  | LaneHead
  | LaneRow string nat nat nat nat
  | ErrorLine error
  | LastAttempt string

text \<open>
  The world the script runs in: the directory \<^verbatim>\<open>agent-status\<close> (\<open>None\<close> when it does not
  exist) with its files in the order \<^verbatim>\<open>glob\<close> lists them, whether \<^verbatim>\<open>AGENT-STATUS.md\<close> can
  be opened for writing, its content (\<open>None\<close> when it does not exist), the console, and
  the clock: \<open>clock w n\<close> is what the \<open>n\<close>-th call of \<^verbatim>\<open>datetime.now\<close> returns, \<open>reads w\<close>
  counts the calls made. A file can be written into the status directory when the
  directory exists.
\<close>

record world =
  status_dir :: "(string \<times> status_file) list option"
  out_writable :: bool
  board :: "line list option"
  console :: "msg list"
  clock :: "nat \<Rightarrow> int"
  reads :: nat

definition print :: "msg \<Rightarrow> world \<Rightarrow> world" where
  "print m w = w\<lparr>console := console w @ [m]\<rparr>"

definition now :: "world \<Rightarrow> int \<times> world" where
  "now w = (clock w (reads w), w\<lparr>reads := Suc (reads w)\<rparr>)"

definition entries :: "world \<Rightarrow> (string \<times> status_file) list" where
  "entries w = (case status_dir w of None \<Rightarrow> [] | Some d \<Rightarrow> d)"

text \<open>\<^verbatim>\<open>status_dir.glob('*.json')\<close>: the entries whose name ends in \<^verbatim>\<open>.json\<close>.\<close>

definition is_json :: "string \<times> status_file \<Rightarrow> bool" where
  "is_json e = (drop (length (fst e) - 5) (fst e) = ''.json'')"

definition glob_json :: "world \<Rightarrow> (string \<times> status_file) list" where
  "glob_json w = filter is_json (entries w)"

text \<open>
  \<^verbatim>\<open>open(status_dir / name, 'w')\<close> followed by \<^verbatim>\<open>json.dump\<close>: the file is created, or
  replaced where it stands. In a directory that does not exist, \<^verbatim>\<open>open\<close> raises
  \<^verbatim>\<open>FileNotFoundError\<close>: it creates files, not directories.
\<close>

fun put_file :: "string \<Rightarrow> status_file \<Rightarrow> (string \<times> status_file) list \<Rightarrow> (string \<times> status_file) list" where
  "put_file n f [] = [(n, f)]"
| "put_file n f (e # es) = (if fst e = n then (n, f) # es else e # put_file n f es)"

definition write_status :: "string \<Rightarrow> agent \<Rightarrow> world \<Rightarrow> error + world" where
  "write_status n a w =
     (case status_dir w of
        None \<Rightarrow> Inl FileNotFoundError
      | Some d \<Rightarrow> Inr (w\<lparr>status_dir := Some (put_file n (Json (JObj a)) d)\<rparr>))"

subsection \<open>Loading\<close>

text \<open>
  \<^verbatim>\<open>safe_json_load\<close>: the loaded value; \<^verbatim>\<open>None\<close> (which is \<open>JNull\<close>) after a warning for the
  two exceptions the \<^verbatim>\<open>except\<close> clause names; any other exception leaves the function.
\<close>

fun safe_json_load :: "string \<times> status_file \<Rightarrow> world \<Rightarrow> (error + json) \<times> world" where
  "safe_json_load (filepath, Json v) w = (Inr v, w)"
| "safe_json_load (filepath, Malformed e) w = (Inr JNull, print (Warning filepath e) w)"
| "safe_json_load (filepath, Unreadable e) w = (Inr JNull, print (Warning filepath e) w)"
| "safe_json_load (filepath, Undecodable e) w = (Inl (UnicodeDecodeError e), w)"

definition create_system_status :: "pylib \<Rightarrow> world \<Rightarrow> agent \<times> world" where
  "create_system_status L w =
     (let (t, w') = now w
      in ([(''agentId'', ''system''),
           (''type'', ''system''),
           (''status'', ''idle''),
           (''lastUpdate'', utc_z L t),
           (''message'', ''System initialized. Waiting for first coordinator run.'')], w'))"

text \<open>The loop over \<^verbatim>\<open>status_files\<close>; \<open>agents\<close> is the list built so far.\<close>

fun load_files :: "(string \<times> status_file) list \<Rightarrow> json list \<Rightarrow> world \<Rightarrow> (error + json list) \<times> world" where
  "load_files [] agents w = (Inr agents, w)"
| "load_files (f # fs) agents w =
     (case safe_json_load (''agent-status/'' @ fst f, snd f) w of
        (Inl e, w') \<Rightarrow> (Inl e, w')
      | (Inr agent_data, w') \<Rightarrow>
          load_files fs (if truthy agent_data then agents @ [agent_data] else agents) w')"

subsection \<open>Sorting\<close>

definition priority :: "(string \<times> nat) list" where
  "priority = [(''in_progress'', 0), (''blocked'', 1), (''waiting'', 2), (''idle'', 3),
               (''completed'', 4)]"

text \<open>\<^verbatim>\<open>priority.get(s, 5)\<close>.\<close>

definition priority_get :: "string \<Rightarrow> nat" where
  "priority_get s = (case map_of priority s of None \<Rightarrow> 5 | Some r \<Rightarrow> r)"

text \<open>The key of the sort, for a dict.\<close>

definition sort_key_of :: "agent \<Rightarrow> nat \<times> string" where
  "sort_key_of a = (priority_get (get_or a ''status'' ''idle''), get_or a ''agentId'' ''unknown'')"

text \<open>
  \<^verbatim>\<open>list.sort\<close> calls the key function on every element, in order, before it compares
  anything: the first element that is not a dict raises \<^verbatim>\<open>AttributeError\<close>.
\<close>

fun as_dicts :: "json list \<Rightarrow> error + agent list" where
  "as_dicts [] = Inr []"
| "as_dicts (JObj d # vs) = (case as_dicts vs of Inl e \<Rightarrow> Inl e | Inr ds \<Rightarrow> Inr (d # ds))"
| "as_dicts (v # vs) = Inl (AttributeError v)"

text \<open>
  \<^verbatim>\<open>agents.sort(key=...)\<close>. The keys are pairs of a number and a string, which Python
  compares as HOL does; \<^verbatim>\<open>list.sort\<close> is stable, and so is \<open>sort_key\<close>.
\<close>

definition sort_agents :: "json list \<Rightarrow> error + agent list" where
  "sort_agents agents =
     (case as_dicts agents of Inl e \<Rightarrow> Inl e | Inr ds \<Rightarrow> Inr (sort_key sort_key_of ds))"

subsection \<open>Rendering\<close>

text \<open>The four lists the board is made of.\<close>

definition is_active :: "agent \<Rightarrow> bool" where
  "is_active a = (get a ''status'' \<noteq> Some ''idle'' \<and> get a ''status'' \<noteq> Some ''completed'')"

definition has_status :: "string \<Rightarrow> agent \<Rightarrow> bool" where
  "has_status s a = (get a ''status'' = Some s)"

text \<open>
  The duration of a row of the Active Work table. \<^verbatim>\<open>fromisoformat\<close> runs first; the
  clock is read when it has returned; subtracting a naive datetime from the aware
  \<^verbatim>\<open>now\<close> raises \<^verbatim>\<open>TypeError\<close>, which the bare \<^verbatim>\<open>except\<close> turns into the placeholder.
\<close>

definition duration_of :: "pylib \<Rightarrow> agent \<Rightarrow> world \<Rightarrow> string \<times> world" where
  "duration_of L agent w =
     (case get agent ''started'' of
        None \<Rightarrow> (''-'', w)
      | Some s \<Rightarrow>
          if s = [] then (''-'', w)
          else (case fromisoformat L (py_replace ''Z'' ''+00:00'' s) of
                  ValueError \<Rightarrow> (''-'', w)
                | Naive \<Rightarrow> (''-'', snd (now w))
                | Aware started \<Rightarrow>
                    (let (t, w') = now w in (split_dot_0 (str_timedelta (t - started)), w'))))"

definition status_emoji :: "string \<Rightarrow> marker" where
  "status_emoji s =
     (case map_of [(''in_progress'', Arrows), (''blocked'', NoEntry), (''waiting'', Hourglass)] s of
        None \<Rightarrow> Question
      | Some m \<Rightarrow> m)"

definition active_row :: "pylib \<Rightarrow> agent \<Rightarrow> world \<Rightarrow> line \<times> world" where
  "active_row L agent w =
     (let (duration, w') = duration_of L agent w
      in (ActiveRow (get_or agent ''agentId'' ''unknown'')
            (status_emoji (get_or agent ''status'' ''idle''))
            (get_or agent ''status'' ''unknown'')
            (take 30 (get_or agent ''task'' ''-''))
            (take 20 (get_or agent ''branch'' ''-''))
            (take 16 (get_or agent ''started'' ''-''))
            duration, w'))"

fun active_rows :: "pylib \<Rightarrow> agent list \<Rightarrow> world \<Rightarrow> line list \<times> world" where
  "active_rows L [] w = ([], w)"
| "active_rows L (agent # rest) w =
     (let (r, w1) = active_row L agent w;
          (rs, w2) = active_rows L rest w1
      in (r # rs, w2))"

definition blocked_row :: "agent \<Rightarrow> line" where
  "blocked_row agent =
     BlockedRow (get_or agent ''agentId'' ''unknown'')
       (get_or agent ''blockedBy'' ''-'')
       (take 40 (get_or agent ''reason'' ''-''))
       (get_or agent ''blockedDuration'' ''-'')"

definition idle_row :: "agent \<Rightarrow> line" where
  "idle_row agent =
     IdleRow (get_or agent ''agentId'' ''unknown'')
       (take 16 (get_or agent ''lastUpdate'' ''-''))
       (get_or agent ''readyFor'' ''Any task'')"

definition completed_row :: "agent \<Rightarrow> line" where
  "completed_row agent =
     CompletedRow (get_or agent ''agentId'' ''unknown'')
       (take 30 (get_or agent ''task'' ''-''))
       (take 16 (get_or agent ''completed'' ''-''))
       (get_or agent ''duration'' ''-'')"

definition active_section :: "pylib \<Rightarrow> agent list \<Rightarrow> world \<Rightarrow> line list \<times> world" where
  "active_section L active w =
     (if active \<noteq> [] then (let (rows, w') = active_rows L active w in (ActiveHead # rows, w'))
      else ([], w))"

definition blocked_section :: "agent list \<Rightarrow> line list" where
  "blocked_section blocked = (if blocked \<noteq> [] then BlockedHead # map blocked_row blocked else [])"

definition idle_section :: "agent list \<Rightarrow> line list" where
  "idle_section idle = (if idle \<noteq> [] then IdleHead # map idle_row idle else [])"

definition completed_section :: "agent list \<Rightarrow> line list" where
  "completed_section completed =
     (if completed \<noteq> [] then CompletedHead # map completed_row (take 5 completed) else [])"

definition statistics :: "agent list \<Rightarrow> agent list \<Rightarrow> agent list \<Rightarrow> agent list \<Rightarrow> line list" where
  "statistics active blocked idle completed =
     [StatsHead, StatActive (length active), StatBlocked (length blocked),
      StatIdle (length idle), StatCompleted (length completed)]"

text \<open>
  The dict \<^verbatim>\<open>lanes\<close>, in insertion order; a lane's entry is the dict with the keys
  \<^verbatim>\<open>active\<close>, \<^verbatim>\<open>idle\<close> and \<^verbatim>\<open>blocked\<close>.
\<close>

record lane_stats =
  stats_active :: nat
  stats_idle :: nat
  stats_blocked :: nat

definition new_stats :: lane_stats where
  "new_stats = \<lparr>stats_active = 0, stats_idle = 0, stats_blocked = 0\<rparr>"

definition count_status :: "string \<Rightarrow> lane_stats \<Rightarrow> lane_stats" where
  "count_status status st =
     (if status = ''in_progress'' \<or> status = ''waiting''
        then st\<lparr>stats_active := stats_active st + 1\<rparr>
      else if status = ''blocked'' then st\<lparr>stats_blocked := stats_blocked st + 1\<rparr>
      else st\<lparr>stats_idle := stats_idle st + 1\<rparr>)"

fun count_in_lane :: "string \<Rightarrow> string \<Rightarrow> (string \<times> lane_stats) list \<Rightarrow> (string \<times> lane_stats) list" where
  "count_in_lane lane status [] = [(lane, count_status status new_stats)]"
| "count_in_lane lane status (e # es) =
     (if fst e = lane then (lane, count_status status (snd e)) # es
      else e # count_in_lane lane status es)"

fun count_lanes :: "agent list \<Rightarrow> (string \<times> lane_stats) list \<Rightarrow> (string \<times> lane_stats) list" where
  "count_lanes [] lanes = lanes"
| "count_lanes (agent # rest) lanes =
     count_lanes rest
       (count_in_lane (get_or agent ''lane'' ''unknown'') (get_or agent ''status'' ''idle'') lanes)"

definition lane_row :: "string \<times> lane_stats \<Rightarrow> line" where
  "lane_row e =
     (let stats = snd e;
          total = stats_active stats + stats_blocked stats + stats_idle stats
      in LaneRow (fst e) (stats_active stats) (stats_blocked stats) (stats_idle stats) total)"

text \<open>\<^verbatim>\<open>sorted(lanes.items())\<close>: the keys of a dict differ, so the lane decides the order.\<close>

definition lane_section :: "agent list \<Rightarrow> line list" where
  "lane_section agents =
     (let lanes = count_lanes agents []
      in if lanes \<noteq> [] then LaneHead # map lane_row (sort_key fst lanes) else [])"

text \<open>The body of \<^verbatim>\<open>with open('AGENT-STATUS.md', 'w') as f\<close>: the lines written.\<close>

definition render :: "pylib \<Rightarrow> agent list \<Rightarrow> world \<Rightarrow> line list \<times> world" where
  "render L agents w =
     (let (t, w1) = now w;
          active = filter is_active agents;
          (active_lines, w2) = active_section L active w1;
          blocked = filter (has_status ''blocked'') agents;
          idle = filter (has_status ''idle'') agents;
          completed = filter (has_status ''completed'') agents
      in ([Title, LastUpdated (utc_z L t), TotalAgents (length agents)]
          @ active_lines
          @ blocked_section blocked
          @ idle_section idle
          @ completed_section completed
          @ statistics active blocked idle completed
          @ lane_section agents, w2))"

subsection \<open>The run\<close>

text \<open>
  The block that creates the status directory when it does not exist: \<^verbatim>\<open>mkdir\<close>, then the
  placeholder file. \<open>None\<close> when the block ends, \<open>Some e\<close> when \<open>e\<close> leaves it.
\<close>

definition ensure_dir :: "pylib \<Rightarrow> world \<Rightarrow> error option \<times> world" where
  "ensure_dir L w =
     (if status_dir w = None then
        (let w1 = print CreatingDir w;
             w2 = w1\<lparr>status_dir := Some []\<rparr>;
             (system_status, w3) = create_system_status L w2
         in case write_status ''system.json'' system_status w3 of
              Inl e \<Rightarrow> (Some e, w3)
            | Inr w4 \<Rightarrow> (None, print (Created ''agent-status/system.json'') w4))
      else (None, w))"

text \<open>The block that fills \<^verbatim>\<open>agents\<close>.\<close>

definition load_agents :: "pylib \<Rightarrow> world \<Rightarrow> (error + json list) \<times> world" where
  "load_agents L w =
     (let status_files = glob_json w
      in if status_files = [] then
           (let w1 = print NoFiles w;
                (system_status, w2) = create_system_status L w1
            in case write_status ''system.json'' system_status w2 of
                 Inl e \<Rightarrow> (Inl e, w2)
               | Inr w3 \<Rightarrow> (Inr [JObj system_status], w3))
         else load_files status_files [] w)"

text \<open>
  \<^verbatim>\<open>aggregate_status\<close>: \<open>None\<close> when it returns, \<open>Some e\<close> when the exception \<open>e\<close> leaves it,
  and the world as it is then.
\<close>

definition aggregate_status :: "pylib \<Rightarrow> world \<Rightarrow> error option \<times> world" where
  "aggregate_status L w =
     (case ensure_dir L w of
        (Some e, w0) \<Rightarrow> (Some e, w0)
      | (None, w0) \<Rightarrow>
          (case load_agents L w0 of
             (Inl e, w1) \<Rightarrow> (Some e, w1)
           | (Inr loaded, w1) \<Rightarrow>
               (case sort_agents loaded of
                  Inl e \<Rightarrow> (Some e, w1)
                | Inr agents \<Rightarrow>
                    if \<not> out_writable w1 then (Some PermissionError, w1)
                    else (let (doc, w2) = render L agents w1;
                              w3 = w2\<lparr>board := Some doc\<rparr>;
                              w4 = print Success w3;
                              w5 = print (ActiveAgents (length (filter is_active agents))) w4;
                              w6 = print (BlockedAgents (length (filter (has_status ''blocked'') agents))) w5
                          in (None, print (IdleAgents (length (filter (has_status ''idle'') agents))) w6)))))"

text \<open>
  The handler of the \<^verbatim>\<open>__main__\<close> block. When the output cannot be opened, \<^verbatim>\<open>open\<close> raises
  inside the handler, nothing catches it, and the interpreter ends with status 1.
\<close>

definition on_error :: "pylib \<Rightarrow> error \<Rightarrow> world \<Rightarrow> nat \<times> world" where
  "on_error L e w =
     (let w1 = print (ErrorAggregating e) w
      in if \<not> out_writable w1 then (1, w1)
         else (let (t, w2) = now w1
               in (1, w2\<lparr>board := Some [Title, ErrorLine e, LastAttempt (utc_z L t)]\<rparr>)))"

text \<open>The \<^verbatim>\<open>__main__\<close> block: the exit status of the process and the world it leaves.\<close>

definition main :: "pylib \<Rightarrow> world \<Rightarrow> nat \<times> world" where
  "main L w =
     (case aggregate_status L w of
        (None, w') \<Rightarrow> (0, w')
      | (Some e, w') \<Rightarrow> on_error L e w')"

subsection \<open>Sample inputs\<close>

text \<open>
  The library at the strings and instants the examples use (the theorems below hold for
  every library): 1704103200 seconds after the epoch is 2024-01-01 10:00:00 UTC, the
  string with an offset parses to that instant, the one without to a naive datetime.
\<close>

definition sample_isoformat :: "int \<Rightarrow> string" where
  "sample_isoformat t =
     (if t = 1704103200000000 then ''2024-01-01T10:00:00+00:00''
      else if t = 1704103290000000 then ''2024-01-01T10:01:30+00:00''
      else if t = 1704103380000000 then ''2024-01-01T10:03:00+00:00''
      else [])"

definition sample_fromisoformat :: "string \<Rightarrow> parsed" where
  "sample_fromisoformat s =
     (if s = ''2024-01-01T10:00:00+00:00'' then Aware 1704103200000000
      else if s = ''2024-01-01T10:00:00'' then Naive
      else ValueError)"

definition sample_lib :: pylib where
  "sample_lib = \<lparr>isoformat = sample_isoformat, fromisoformat = sample_fromisoformat\<rparr>"

text \<open>A clock that is read every 90 seconds, from 2024-01-01 10:00:00 UTC on.\<close>

definition sample_clock :: "nat \<Rightarrow> int" where
  "sample_clock n = 1704103200000000 + 90000000 * int n"

text \<open>A world with the given status directory and a board that can be written.\<close>

definition sample_world :: "(string \<times> status_file) list option \<Rightarrow> world" where
  "sample_world d =
     \<lparr>status_dir = d, out_writable = True, board = None, console = [],
      clock = sample_clock, reads = 0\<rparr>"

text \<open>The same world with a board that cannot be opened for writing.\<close>

definition readonly_world :: "(string \<times> status_file) list option \<Rightarrow> world" where
  "readonly_world d = (sample_world d)\<lparr>out_writable := False\<rparr>"


text \<open>Three record files: a record, a file that is not JSON, a file that is not UTF-8.\<close>

definition good_file :: "string \<times> status_file" where
  "good_file = (''a.json'', Json (JObj [(''agentId'', ''a''), (''status'', ''idle'')]))"

definition malformed_file :: "string \<times> status_file" where
  "malformed_file = (''b.json'', Malformed ''Expecting value: line 1 column 1 (char 0)'')"

definition undecodable_file :: "string \<times> status_file" where
  "undecodable_file = (''c.json'', Undecodable ''invalid start byte'')"

subsection \<open>The sort key in words\<close>

text \<open>
  The rank as the specification words it: the five known statuses in order, and 5 for
  an unrecognized and for a missing status.
\<close>

definition spec_rank :: "string option \<Rightarrow> nat" where
  "spec_rank s =
     (case s of
        None \<Rightarrow> 5
      | Some x \<Rightarrow>
          if x = ''in_progress'' then 0 else if x = ''blocked'' then 1
          else if x = ''waiting'' then 2 else if x = ''idle'' then 3
          else if x = ''completed'' then 4 else 5)"

definition spec_sort_key :: "agent \<Rightarrow> nat \<times> string" where
  "spec_sort_key a =
     (spec_rank (get a ''status''), case get a ''agentId'' of None \<Rightarrow> ''unknown'' | Some i \<Rightarrow> i)"

text \<open>The rank with a missing status counted as \<^verbatim>\<open>idle\<close>.\<close>

definition amended_rank :: "string option \<Rightarrow> nat" where
  "amended_rank s =
     (case s of
        None \<Rightarrow> 3
      | Some x \<Rightarrow>
          if x = ''in_progress'' then 0 else if x = ''blocked'' then 1
          else if x = ''waiting'' then 2 else if x = ''idle'' then 3
          else if x = ''completed'' then 4 else 5)"

definition amended_sort_key :: "agent \<Rightarrow> nat \<times> string" where
  "amended_sort_key a =
     (amended_rank (get a ''status''), case get a ''agentId'' of None \<Rightarrow> ''unknown'' | Some i \<Rightarrow> i)"

text \<open>A completed record and a record without a status.\<close>

definition done_agent :: agent where
  "done_agent = [(''agentId'', ''a''), (''status'', ''completed'')]"

definition bare_agent :: agent where
  "bare_agent = [(''agentId'', ''b'')]"

subsection \<open>Reading the board\<close>

text \<open>The rows of the Active Work and Recent Completions tables, and three lines of the Statistics.\<close>

definition is_active_row :: "line \<Rightarrow> bool" where
  "is_active_row l = (case l of ActiveRow a m s t b st d \<Rightarrow> True | _ \<Rightarrow> False)"



definition is_lane_line :: "line \<Rightarrow> bool" where
  "is_lane_line l = (case l of LaneHead \<Rightarrow> True | LaneRow n a b i t \<Rightarrow> True | _ \<Rightarrow> False)"



subsection \<open>The lane table in words\<close>

text \<open>
  The lane of a record, and the three buckets: active for \<^verbatim>\<open>in_progress\<close> and \<^verbatim>\<open>waiting\<close>,
  blocked for \<^verbatim>\<open>blocked\<close>, idle for everything else, a missing status included.
\<close>

definition lane_of :: "agent \<Rightarrow> string" where
  "lane_of a = (case get a ''lane'' of None \<Rightarrow> ''unknown'' | Some l \<Rightarrow> l)"

definition counts_active :: "agent \<Rightarrow> bool" where
  "counts_active a = (get a ''status'' = Some ''in_progress'' \<or> get a ''status'' = Some ''waiting'')"

definition counts_blocked :: "agent \<Rightarrow> bool" where
  "counts_blocked a = (get a ''status'' = Some ''blocked'')"

definition counts_idle :: "agent \<Rightarrow> bool" where
  "counts_idle a = (\<not> counts_active a \<and> \<not> counts_blocked a)"

definition in_lane :: "string \<Rightarrow> agent \<Rightarrow> bool" where
  "in_lane l a = (lane_of a = l)"

text \<open>The row of a lane: the three counts over the records of the lane, and their sum.\<close>

definition spec_lane_row :: "agent list \<Rightarrow> string \<Rightarrow> line" where
  "spec_lane_row agents l =
     (let members = filter (in_lane l) agents;
          n_active = length (filter counts_active members);
          n_blocked = length (filter counts_blocked members);
          n_idle = length (filter counts_idle members)
      in LaneRow l n_active n_blocked n_idle (n_active + n_blocked + n_idle))"

text \<open>The table: nothing without records, else one row for each lane, ascending.\<close>

definition spec_lane_table :: "agent list \<Rightarrow> line list" where
  "spec_lane_table agents =
     (if agents = [] then []
      else LaneHead # map (spec_lane_row agents) (sort (remdups (map lane_of agents))))"

text \<open>What the loop over the agents adds to the entry of one lane.\<close>

definition tally :: "agent list \<Rightarrow> lane_stats \<Rightarrow> lane_stats" where
  "tally members st = foldl (\<lambda>st a. count_status (get_or a ''status'' ''idle'') st) st members"

text \<open>Two records of the lane \<^verbatim>\<open>x\<close>, one waiting and one blocked.\<close>

definition waiting_x :: agent where
  "waiting_x = [(''agentId'', ''w''), (''status'', ''waiting''), (''lane'', ''x'')]"

definition blocked_x :: agent where
  "blocked_x = [(''agentId'', ''b''), (''status'', ''blocked''), (''lane'', ''x'')]"

subsection \<open>The duration in words\<close>

text \<open>An elapsed time cut to whole seconds.\<close>

definition whole_seconds :: "int \<Rightarrow> int" where
  "whole_seconds td = td - td mod 1000000"

text \<open>
  The start of a record: the instant its \<^verbatim>\<open>started\<close> stands for, when the field is there,
  is not empty and parses to a datetime with a UTC offset.
\<close>

definition aware_start :: "pylib \<Rightarrow> agent \<Rightarrow> int option" where
  "aware_start L a =
     (case get a ''started'' of
        None \<Rightarrow> None
      | Some s \<Rightarrow>
          if s = [] then None
          else (case fromisoformat L (py_replace ''Z'' ''+00:00'' s) of
                  Aware t \<Rightarrow> Some t
                | Naive \<Rightarrow> None
                | ValueError \<Rightarrow> None))"

text \<open>The duration cell of a row rendered at the instant \<open>t\<close>.\<close>

definition spec_duration :: "pylib \<Rightarrow> agent \<Rightarrow> int \<Rightarrow> string" where
  "spec_duration L a t =
     (case aware_start L a of
        None \<Rightarrow> ''-''
      | Some t0 \<Rightarrow> str_timedelta (whole_seconds (t - t0)))"

text \<open>
  Two records in progress: one whose \<^verbatim>\<open>started\<close> carries the offset \<^verbatim>\<open>Z\<close> and whose task has
  50 characters, one whose \<^verbatim>\<open>started\<close> is ISO-8601 without an offset.
\<close>

definition aware_agent :: agent where
  "aware_agent =
     [(''agentId'', ''a''), (''status'', ''in_progress''),
      (''task'', ''0123456789abcdefghijklmnopqrstuvwxyzABCDEFGHIJKLMN''),
      (''branch'', ''feature/a-branch-name-of-32-chars''),
      (''started'', ''2024-01-01T10:00:00Z'')]"

definition naive_agent :: agent where
  "naive_agent =
     [(''agentId'', ''n''), (''status'', ''in_progress''), (''started'', ''2024-01-01T10:00:00'')]"

subsection \<open>Two clocks\<close>

text \<open>
  \<open>agree c w k\<close>: the clock \<open>c\<close> gives what the clock of \<open>w\<close> gives, at the readings from the
  next one of \<open>w\<close> up to the one before the \<open>k\<close>-th.
\<close>

definition agree :: "(nat \<Rightarrow> int) \<Rightarrow> world \<Rightarrow> nat \<Rightarrow> bool" where
  "agree c w k = (\<forall>n. reads w \<le> n \<and> n < k \<longrightarrow> c n = clock w n)"

text \<open>The header line that carries the time of rendering.\<close>

definition is_last_updated :: "line \<Rightarrow> bool" where
  "is_last_updated l = (case l of LastUpdated t \<Rightarrow> True | _ \<Rightarrow> False)"

text \<open>
  A row takes a reading of the clock when the \<^verbatim>\<open>started\<close> of its record is there, is not
  empty and parses (with or without a UTC offset).
\<close>

definition reads_clock :: "pylib \<Rightarrow> agent \<Rightarrow> bool" where
  "reads_clock L a =
     (case get a ''started'' of
        None \<Rightarrow> False
      | Some s \<Rightarrow> s \<noteq> [] \<and> fromisoformat L (py_replace ''Z'' ''+00:00'' s) \<noteq> ValueError)"

text \<open>The row of a record whose duration is computed from the reading \<open>t\<close>.\<close>

definition spec_row :: "pylib \<Rightarrow> agent \<Rightarrow> int \<Rightarrow> line" where
  "spec_row L a t =
     ActiveRow (get_or a ''agentId'' ''unknown'')
       (status_emoji (get_or a ''status'' ''idle''))
       (get_or a ''status'' ''unknown'')
       (take 30 (get_or a ''task'' ''-''))
       (take 20 (get_or a ''branch'' ''-''))
       (take 16 (get_or a ''started'' ''-''))
       (spec_duration L a t)"

text \<open>
  The rows of the table when the next reading of the clock \<open>c\<close> is its \<open>k\<close>-th: a row that
  takes a reading takes the next one, and the row after it the one after that.
\<close>

fun spec_rows :: "pylib \<Rightarrow> (nat \<Rightarrow> int) \<Rightarrow> nat \<Rightarrow> agent list \<Rightarrow> line list" where
  "spec_rows L c k [] = []"
| "spec_rows L c k (a # rest) =
     spec_row L a (c k) # spec_rows L c (if reads_clock L a then Suc k else k) rest"

text \<open>A clock that starts with \<open>sample_clock\<close> and is then read every 150 seconds.\<close>

definition slow_clock :: "nat \<Rightarrow> int" where
  "slow_clock n = 1704103200000000 + 150000000 * int n"

text \<open>A status directory with one record in progress since 2024-01-01 10:00:00 UTC.\<close>

definition busy_world :: world where
  "busy_world = sample_world (Some [(''a.json'', Json (JObj aware_agent))])"

text \<open>A clock that gives the first two readings of \<open>sample_clock\<close> and then stands at 0.\<close>

definition late_clock :: "nat \<Rightarrow> int" where
  "late_clock n = (if n < 2 then sample_clock n else 0)"

section \<open>Properties\<close>

subsection \<open>The loader\<close>

lemma load_files_keeps:
  "load_files fs agents w = (Inr loaded, w') \<Longrightarrow> v \<in> set agents \<Longrightarrow> v \<in> set loaded"
proof (induction fs arbitrary: agents w)
  case Nil
  then show ?case by simp
next
  case (Cons f fs)
  then show ?case
    by (cases "safe_json_load (''agent-status/'' @ fst f, snd f) w")
       (auto split: sum.splits if_splits)
qed

lemma load_files_truthy_member:
  "load_files fs agents w = (Inr loaded, w') \<Longrightarrow> (n, Json v) \<in> set fs \<Longrightarrow> truthy v
     \<Longrightarrow> v \<in> set loaded"
proof (induction fs arbitrary: agents w)
  case Nil
  then show ?case by simp
next
  case (Cons f fs)
  show ?case
  proof (cases "f = (n, Json v)")
    case True
    with Cons.prems show ?thesis by (auto dest: load_files_keeps)
  next
    case False
    with Cons.prems have mem: "(n, Json v) \<in> set fs" by simp
    from Cons.prems(1) show ?thesis
      by (cases "safe_json_load (''agent-status/'' @ fst f, snd f) w")
         (auto split: sum.splits dest: Cons.IH [OF _ mem Cons.prems(3)])
  qed
qed

text \<open>Loading prints warnings and touches nothing else.\<close>

lemma load_files_frame:
  "load_files fs agents w = (r, w') \<Longrightarrow>
     out_writable w' = out_writable w \<and> reads w' = reads w \<and> clock w' = clock w
     \<and> status_dir w' = status_dir w \<and> board w' = board w"
proof (induction fs arbitrary: agents w)
  case Nil
  then show ?case by auto
next
  case (Cons f fs)
  obtain n c where f: "f = (n, c)" by (cases f)
  from Cons.prems show ?case unfolding f
    by (cases c) (auto simp: print_def dest!: Cons.IH)
qed

lemma as_dicts_fails:
  "v \<in> set vs \<Longrightarrow> \<forall>a. v \<noteq> JObj a \<Longrightarrow> \<exists>e. as_dicts vs = Inl e"
  by (induction vs rule: as_dicts.induct) (auto split: sum.splits)

text \<open>
  The two failures \<^verbatim>\<open>safe_json_load\<close> names are local: the file is reported on the console
  and left out, and the records loaded are those loaded without it.
\<close>

lemma load_files_records:
  "fst (load_files fs agents (print m w)) = fst (load_files fs agents w)"
proof (induction fs arbitrary: agents w m)
  case Nil
  show ?case by simp
next
  case (Cons f fs)
  obtain n content where f: "f = (n, content)" by (cases f)
  show ?case unfolding f
    by (cases content) (simp_all add: Cons.IH)
qed

lemma caught_failure_is_skipped:
  assumes "content = Malformed e \<or> content = Unreadable e"
  shows "safe_json_load (''agent-status/'' @ n, content) w
           = (Inr JNull, print (Warning (''agent-status/'' @ n) e) w)"
    and "fst (load_files ((n, content) # after) agents w) = fst (load_files after agents w)"
  using assms by (auto simp: load_files_records)

text \<open>
  C9. A file whose JSON value is false in Python (the empty object, the empty array, the
  empty string, 0, \<^verbatim>\<open>false\<close>, \<^verbatim>\<open>null\<close>) is loaded without a warning, and the loader's
  result and the world after it are what they are without that file: the record is
  left out silently.
\<close>

theorem falsy_value_silently_excluded:
  assumes "\<not> truthy v"
  shows "safe_json_load (''agent-status/'' @ n, Json v) w = (Inr v, w)
       \<and> load_files (before @ (n, Json v) # after) agents w
           = load_files (before @ after) agents w"
proof
  show "safe_json_load (''agent-status/'' @ n, Json v) w = (Inr v, w)" by simp
next
  show "load_files (before @ (n, Json v) # after) agents w = load_files (before @ after) agents w"
  proof (induction before arbitrary: agents w)
    case Nil
    from assms show ?case by simp
  next
    case (Cons f fs)
    show ?case
      by (cases "safe_json_load (''agent-status/'' @ fst f, snd f) w")
         (auto simp: Cons.IH split: sum.splits)
  qed
qed

theorem falsy_value_silently_excluded_witness:
  "\<not> truthy (JObj [])
   \<and> load_files ([(''a.json'', Json (JObj [(''agentId'', ''a'')]))] @ (''b.json'', Json (JObj []))
        # [(''c.json'', Malformed ''Expecting value'')]) [] (sample_world None)
     = load_files ([(''a.json'', Json (JObj [(''agentId'', ''a'')]))]
        @ [(''c.json'', Malformed ''Expecting value'')]) [] (sample_world None)
   \<and> fst (load_files [(''a.json'', Json (JObj [(''agentId'', ''a'')])), (''b.json'', Json (JObj [])),
        (''c.json'', Malformed ''Expecting value'')] [] (sample_world None))
     = Inr [JObj [(''agentId'', ''a'')]]
   \<and> console (snd (load_files [(''a.json'', Json (JObj [(''agentId'', ''a'')])),
        (''b.json'', Json (JObj [])), (''c.json'', Malformed ''Expecting value'')] []
        (sample_world None)))
     = [Warning ''agent-status/c.json'' ''Expecting value'']"
proof -
  have f: "\<not> truthy (JObj [])" by simp
  from falsy_value_silently_excluded [OF f]
  have "load_files ([(''a.json'', Json (JObj [(''agentId'', ''a'')]))] @ (''b.json'', Json (JObj []))
        # [(''c.json'', Malformed ''Expecting value'')]) [] (sample_world None)
     = load_files ([(''a.json'', Json (JObj [(''agentId'', ''a'')]))]
        @ [(''c.json'', Malformed ''Expecting value'')]) [] (sample_world None)"
    by blast
  then show ?thesis by (simp add: print_def sample_world_def)
qed

text \<open>
  C10. When a \<^verbatim>\<open>*.json\<close> file of the status directory holds a JSON value that is true in
  Python and is not an object (a non-empty string, a non-empty array, a number other
  than 0, \<^verbatim>\<open>true\<close>), the run is not recovered at that file: an exception leaves
  \<^verbatim>\<open>aggregate_status\<close>, the process ends with status 1, and where the board can be written
  it holds the error document only.
\<close>

theorem truthy_non_object_is_fatal:
  assumes dir: "status_dir w = Some d"
    and mem: "(n, Json v) \<in> set d"
    and json: "is_json (n, Json v)"
    and truthy: "truthy v"
    and nobj: "\<forall>a. v \<noteq> JObj a"
  shows "\<exists>e w'. aggregate_status L w = (Some e, w')
           \<and> fst (main L w) = 1
           \<and> (out_writable w \<longrightarrow>
                board (snd (main L w))
                  = Some [Title, ErrorLine e, LastAttempt (utc_z L (clock w (reads w)))])"
proof -
  from dir have ens: "ensure_dir L w = (None, w)" by (simp add: ensure_dir_def)
  from dir mem json have glob: "(n, Json v) \<in> set (glob_json w)"
    by (simp add: glob_json_def entries_def)
  then have ne: "glob_json w \<noteq> []" by auto
  obtain r w1 where lf: "load_files (glob_json w) [] w = (r, w1)"
    by (cases "load_files (glob_json w) [] w")
  from ne lf have la: "load_agents L w = (r, w1)" by (simp add: load_agents_def Let_def)
  from load_files_frame [OF lf]
  have frame: "out_writable w1 = out_writable w" "reads w1 = reads w" "clock w1 = clock w"
    by simp_all
  have "\<exists>e. aggregate_status L w = (Some e, w1)"
  proof (cases r)
    case (Inl e)
    with la ens show ?thesis by (simp add: aggregate_status_def)
  next
    case (Inr loaded)
    with lf glob truthy have "v \<in> set loaded" by (auto dest: load_files_truthy_member)
    with nobj obtain e where "as_dicts loaded = Inl e" by (auto dest: as_dicts_fails)
    then have "sort_agents loaded = Inl e" by (simp add: sort_agents_def)
    with Inr la ens show ?thesis by (simp add: aggregate_status_def)
  qed
  then obtain e where agg: "aggregate_status L w = (Some e, w1)" ..
  have "fst (main L w) = 1"
    using agg by (simp add: main_def on_error_def Let_def now_def split: prod.splits)
  moreover have "out_writable w \<longrightarrow>
      board (snd (main L w)) = Some [Title, ErrorLine e, LastAttempt (utc_z L (clock w (reads w)))]"
    using agg frame by (simp add: main_def on_error_def Let_def now_def print_def)
  ultimately show ?thesis using agg by blast
qed

theorem truthy_non_object_is_fatal_witness:
  "status_dir (sample_world (Some [(''a.json'', Json (JObj [(''agentId'', ''a'')])),
       (''b.json'', Json (JStr ''hello''))]))
     = Some [(''a.json'', Json (JObj [(''agentId'', ''a'')])), (''b.json'', Json (JStr ''hello''))]
   \<and> (''b.json'', Json (JStr ''hello''))
       \<in> set [(''a.json'', Json (JObj [(''agentId'', ''a'')])), (''b.json'', Json (JStr ''hello''))]
   \<and> is_json (''b.json'', Json (JStr ''hello''))
   \<and> truthy (JStr ''hello'')
   \<and> out_writable (sample_world (Some [(''a.json'', Json (JObj [(''agentId'', ''a'')])),
       (''b.json'', Json (JStr ''hello''))]))
   \<and> fst (main sample_lib (sample_world (Some [(''a.json'', Json (JObj [(''agentId'', ''a'')])),
       (''b.json'', Json (JStr ''hello''))]))) = 1
   \<and> (\<exists>e. board (snd (main sample_lib (sample_world (Some
         [(''a.json'', Json (JObj [(''agentId'', ''a'')])), (''b.json'', Json (JStr ''hello''))]))))
       = Some [Title, ErrorLine e, LastAttempt (utc_z sample_lib (sample_clock 0))])"
proof -
  let ?d = "[(''a.json'', Json (JObj [(''agentId'', ''a'')])), (''b.json'', Json (JStr ''hello''))]"
  have h1: "status_dir (sample_world (Some ?d)) = Some ?d" by (simp add: sample_world_def)
  have h2: "(''b.json'', Json (JStr ''hello'')) \<in> set ?d" by simp
  have h3: "is_json (''b.json'', Json (JStr ''hello''))" by (simp add: is_json_def)
  have h4: "truthy (JStr ''hello'')" by simp
  have h5: "\<forall>a. JStr ''hello'' \<noteq> JObj a" by simp
  have h6: "out_writable (sample_world (Some ?d))" by (simp add: sample_world_def)
  have h7: "clock (sample_world (Some ?d)) (reads (sample_world (Some ?d))) = sample_clock 0"
    by (simp add: sample_world_def)
  from truthy_non_object_is_fatal [OF h1 h2 h3 h4 h5, of sample_lib] h6 h7
  have "fst (main sample_lib (sample_world (Some ?d))) = 1
      \<and> (\<exists>e. board (snd (main sample_lib (sample_world (Some ?d))))
            = Some [Title, ErrorLine e, LastAttempt (utc_z sample_lib (sample_clock 0))])"
    by auto
  with h1 h2 h3 h4 h6 show ?thesis by blast
qed

subsection \<open>Rendering reads the clock and changes nothing else\<close>

lemma duration_of_frame:
  "snd (duration_of L a w) = w\<lparr>reads := reads (snd (duration_of L a w))\<rparr>"
  by (simp add: duration_of_def now_def split: option.splits parsed.splits)

lemma duration_of_mono: "reads w \<le> reads (snd (duration_of L a w))"
  by (simp add: duration_of_def now_def split: option.splits parsed.splits)

lemma active_row_snd: "snd (active_row L a w) = snd (duration_of L a w)"
  by (simp add: active_row_def split_beta)

lemma active_rows_frame:
  "snd (active_rows L as w) = w\<lparr>reads := reads (snd (active_rows L as w))\<rparr>"
proof (induction as arbitrary: w)
  case Nil
  show ?case by simp
next
  case (Cons a as)
  let ?w1 = "snd (duration_of L a w)"
  have "snd (active_rows L (a # as) w) = snd (active_rows L as ?w1)"
    by (simp add: split_beta active_row_snd)
  also have "\<dots> = ?w1\<lparr>reads := reads (snd (active_rows L as ?w1))\<rparr>"
    by (rule Cons.IH)
  also have "\<dots> = w\<lparr>reads := reads (snd (active_rows L as ?w1))\<rparr>"
    by (subst duration_of_frame) simp
  finally show ?case by (simp add: split_beta active_row_snd)
qed

lemma active_rows_mono: "reads w \<le> reads (snd (active_rows L as w))"
proof (induction as arbitrary: w)
  case Nil
  show ?case by simp
next
  case (Cons a as)
  have "reads w \<le> reads (snd (duration_of L a w))" by (rule duration_of_mono)
  also have "\<dots> \<le> reads (snd (active_rows L as (snd (duration_of L a w))))" by (rule Cons.IH)
  finally show ?case by (simp add: split_beta active_row_snd)
qed

lemma active_section_snd: "snd (active_section L as w) = snd (active_rows L as w)"
  by (cases as) (simp_all add: active_section_def split_beta)

lemma render_snd:
  "snd (render L agents w)
     = snd (active_rows L (filter is_active agents) (w\<lparr>reads := Suc (reads w)\<rparr>))"
  by (simp add: render_def now_def split_beta active_section_snd Let_def)

lemma render_frame: "snd (render L agents w) = w\<lparr>reads := reads (snd (render L agents w))\<rparr>"
proof -
  let ?w1 = "w\<lparr>reads := Suc (reads w)\<rparr>"
  let ?k = "reads (snd (active_rows L (filter is_active agents) ?w1))"
  have "snd (render L agents w) = ?w1\<lparr>reads := ?k\<rparr>"
    unfolding render_snd by (rule active_rows_frame)
  then show ?thesis by simp
qed

lemma render_mono: "reads w < reads (snd (render L agents w))"
proof -
  have "Suc (reads w)
      \<le> reads (snd (active_rows L (filter is_active agents) (w\<lparr>reads := Suc (reads w)\<rparr>)))"
    using active_rows_mono [of "w\<lparr>reads := Suc (reads w)\<rparr>"] by simp
  then show ?thesis by (simp add: render_snd)
qed

lemma render_fields:
  "status_dir (snd (render L agents w)) = status_dir w"
  "out_writable (snd (render L agents w)) = out_writable w"
  "console (snd (render L agents w)) = console w"
  "clock (snd (render L agents w)) = clock w"
  "board (snd (render L agents w)) = board w"
  by (subst render_frame, simp)+

subsection \<open>The empty status directory\<close>




lemma create_system_status_fst:
  "fst (create_system_status L w)
     = [(''agentId'', ''system''), (''type'', ''system''), (''status'', ''idle''),
        (''lastUpdate'', utc_z L (clock w (reads w))),
        (''message'', ''System initialized. Waiting for first coordinator run.'')]"
  by (simp add: create_system_status_def now_def)

lemma create_system_status_snd: "snd (create_system_status L w) = w\<lparr>reads := Suc (reads w)\<rparr>"
  by (simp add: create_system_status_def now_def)


text \<open>Without the directory, the placeholder cannot be written.\<close>

lemma load_agents_needs_dir: "status_dir w = None \<Longrightarrow> fst (load_agents L w) = Inl FileNotFoundError"
  by (simp add: load_agents_def glob_json_def entries_def Let_def split_beta write_status_def
      create_system_status_snd print_def)




subsection \<open>The exit status and the error document\<close>

lemma write_status_in_dir:
  "status_dir w = Some d \<Longrightarrow>
     write_status n a w = Inr (w\<lparr>status_dir := Some (put_file n (Json (JObj a)) d)\<rparr>)"
  by (simp add: write_status_def)

text \<open>The block that creates the directory ends without an exception.\<close>

lemma ensure_dir_ok: "fst (ensure_dir L w) = None"
  by (simp add: ensure_dir_def Let_def split_beta create_system_status_snd print_def
      write_status_def)

lemma ensure_dir_snd:
  "snd (ensure_dir L w)
     = (if status_dir w = None
        then w\<lparr>status_dir := Some [(''system.json'', Json (JObj (fst (create_system_status L w))))],
               console := console w @ [CreatingDir, Created ''agent-status/system.json''],
               reads := Suc (reads w)\<rparr>
        else w)"
  by (simp add: ensure_dir_def Let_def split_beta create_system_status_def now_def print_def
      write_status_def)

lemma ensure_dir_frame:
  "out_writable (snd (ensure_dir L w)) = out_writable w
   \<and> board (snd (ensure_dir L w)) = board w
   \<and> clock (snd (ensure_dir L w)) = clock w"
  by (simp add: ensure_dir_snd)

lemma ensure_dir_exists: "status_dir (snd (ensure_dir L w)) \<noteq> None"
  by (simp add: ensure_dir_snd)

lemma load_agents_frame:
  assumes "load_agents L w = (r, w1)"
  shows "out_writable w1 = out_writable w \<and> board w1 = board w \<and> clock w1 = clock w"
proof (cases "glob_json w = []")
  case True
  with assms show ?thesis
    by (auto simp: load_agents_def Let_def split_beta create_system_status_snd print_def
        write_status_def split: option.splits)
next
  case False
  with assms have "load_files (glob_json w) [] w = (r, w1)"
    by (simp add: load_agents_def Let_def)
  from load_files_frame [OF this] show ?thesis by simp
qed

lemma load_stage_frame:
  assumes "load_agents L (snd (ensure_dir L w)) = (r, w1)"
  shows "out_writable w1 = out_writable w \<and> board w1 = board w \<and> clock w1 = clock w"
  using load_agents_frame [OF assms] ensure_dir_frame [of L w] by simp

text \<open>What \<^verbatim>\<open>aggregate_status\<close> does after the records are loaded.\<close>

lemma aggregate_status_cases:
  assumes "load_agents L (snd (ensure_dir L w)) = (r, w1)"
  shows "aggregate_status L w
       = (case r of
            Inl e \<Rightarrow> (Some e, w1)
          | Inr loaded \<Rightarrow>
              (case sort_agents loaded of
                 Inl e \<Rightarrow> (Some e, w1)
               | Inr agents \<Rightarrow>
                   if \<not> out_writable w1 then (Some PermissionError, w1)
                   else (None,
                     (snd (render L agents w1))
                       \<lparr>board := Some (fst (render L agents w1)),
                        console := console w1 @
                          [Success, ActiveAgents (length (filter is_active agents)),
                           BlockedAgents (length (filter (has_status ''blocked'') agents)),
                           IdleAgents (length (filter (has_status ''idle'') agents))]\<rparr>)))"
proof -
  obtain w0 where e: "ensure_dir L w = (None, w0)"
    using ensure_dir_ok [of L w] by (cases "ensure_dir L w") simp
  with assms have "load_agents L w0 = (r, w1)" by simp
  with e show ?thesis
    by (simp add: aggregate_status_def Let_def split_beta print_def render_fields
        split: sum.splits)
qed

lemma aggregate_status_raises:
  assumes "aggregate_status L w = (Some e, w')"
  shows "out_writable w' = out_writable w \<and> board w' = board w \<and> clock w' = clock w"
proof -
  obtain r w1 where la: "load_agents L (snd (ensure_dir L w)) = (r, w1)"
    by (cases "load_agents L (snd (ensure_dir L w))")
  from assms have "w' = w1"
    unfolding aggregate_status_cases [OF la] by (auto split: sum.splits if_splits)
  with load_stage_frame [OF la] show ?thesis by simp
qed

lemma aggregate_status_returns:
  assumes "aggregate_status L w = (None, w')"
  shows "out_writable w \<and> (\<exists>doc. board w' = Some (Title # doc))"
proof -
  obtain r w1 where la: "load_agents L (snd (ensure_dir L w)) = (r, w1)"
    by (cases "load_agents L (snd (ensure_dir L w))")
  from assms have "out_writable w1 \<and> (\<exists>doc. board w' = Some (Title # doc))"
    unfolding aggregate_status_cases [OF la]
    by (auto simp: render_def now_def split_beta Let_def split: sum.splits if_splits)
  with load_stage_frame [OF la] show ?thesis by simp
qed

text \<open>
  C3, at a failing input. A directory with a record and a file that is not UTF-8: reading
  the file raises \<^verbatim>\<open>UnicodeDecodeError\<close>, which \<^verbatim>\<open>safe_json_load\<close> does not catch. No
  warning is printed, the record beside it is lost, the board is the error document
  and the process ends with status 1.
\<close>

theorem undecodable_file_is_fatal:
  "main sample_lib (sample_world (Some [good_file, undecodable_file]))
     = (1, (sample_world (Some [good_file, undecodable_file]))
            \<lparr>console := [ErrorAggregating (UnicodeDecodeError ''invalid start byte'')],
             reads := 1,
             board := Some [Title, ErrorLine (UnicodeDecodeError ''invalid start byte''),
                            LastAttempt ''2024-01-01T10:00:00Z'']\<rparr>)"
  by (simp add: main_def on_error_def aggregate_status_def ensure_dir_def load_agents_def
      glob_json_def entries_def is_json_def sample_world_def good_file_def
      undecodable_file_def print_def now_def utc_z_def sample_lib_def sample_isoformat_def
      sample_clock_def)

text \<open>
  C4, as the claim states it, fails where the board cannot be opened for writing: the
  run fails, and no error document is written.
\<close>

theorem error_document_not_written_counterexample:
  "fst (aggregate_status sample_lib (readonly_world (Some [good_file]))) = Some PermissionError
   \<and> fst (main sample_lib (readonly_world (Some [good_file]))) = 1
   \<and> board (snd (main sample_lib (readonly_world (Some [good_file])))) = None"
  by (simp add: main_def on_error_def aggregate_status_def ensure_dir_def load_agents_def
      glob_json_def entries_def is_json_def sample_world_def readonly_world_def good_file_def
      print_def sort_agents_def)

text \<open>
  C4, amended. The process ends with status 0 when \<^verbatim>\<open>aggregate_status\<close> returns (the board
  is then the full board, whatever warnings were printed). When an exception leaves
  \<^verbatim>\<open>aggregate_status\<close>, it is caught once, reported on the console, and the process ends
  with status 1; where the board can be opened for writing it then holds the error
  document (title, the exception, the time of the attempt) and nothing else; where it
  cannot, the board is left as it was.
\<close>

theorem exit_status_and_error_document:
  "(aggregate_status L w = (None, w') \<longrightarrow>
      main L w = (0, w') \<and> (\<exists>doc. board w' = Some (Title # doc)))
   \<and> (aggregate_status L w = (Some e, w') \<longrightarrow>
        fst (main L w) = 1
      \<and> console (snd (main L w)) = console w' @ [ErrorAggregating e]
      \<and> (out_writable w \<longrightarrow>
           board (snd (main L w))
             = Some [Title, ErrorLine e, LastAttempt (utc_z L (clock w (reads w')))])
      \<and> (\<not> out_writable w \<longrightarrow> board (snd (main L w)) = board w))"
proof (intro conjI impI)
  assume "aggregate_status L w = (None, w')"
  then show "main L w = (0, w')" by (simp add: main_def)
next
  assume "aggregate_status L w = (None, w')"
  then show "\<exists>doc. board w' = Some (Title # doc)" by (simp add: aggregate_status_returns)
next
  assume agg: "aggregate_status L w = (Some e, w')"
  then show "fst (main L w) = 1"
    by (simp add: main_def on_error_def Let_def split_beta)
  from agg show "console (snd (main L w)) = console w' @ [ErrorAggregating e]"
    by (simp add: main_def on_error_def Let_def split_beta print_def now_def)
next
  assume agg: "aggregate_status L w = (Some e, w')" and "out_writable w"
  with aggregate_status_raises [OF agg]
  show "board (snd (main L w))
      = Some [Title, ErrorLine e, LastAttempt (utc_z L (clock w (reads w')))]"
    by (simp add: main_def on_error_def Let_def print_def now_def)
next
  assume agg: "aggregate_status L w = (Some e, w')" and "\<not> out_writable w"
  with aggregate_status_raises [OF agg]
  show "board (snd (main L w)) = board w"
    by (simp add: main_def on_error_def Let_def print_def)
qed

lemma sample_success_run:
  "aggregate_status sample_lib (sample_world (Some [good_file, malformed_file]))
     = (None, (sample_world (Some [good_file, malformed_file]))
          \<lparr>console := [Warning ''agent-status/b.json'' ''Expecting value: line 1 column 1 (char 0)'',
                       Success, ActiveAgents 0, BlockedAgents 0, IdleAgents 1],
           reads := 1,
           board := Some [Title, LastUpdated ''2024-01-01T10:00:00Z'', TotalAgents 1,
                          IdleHead, IdleRow ''a'' ''-'' ''Any task'',
                          StatsHead, StatActive 0, StatBlocked 0, StatIdle 1, StatCompleted 0,
                          LaneHead, LaneRow ''unknown'' 0 0 1 1]\<rparr>)"
  by (simp add: aggregate_status_def ensure_dir_def load_agents_def
      glob_json_def entries_def is_json_def sample_world_def good_file_def
      malformed_file_def print_def now_def utc_z_def sample_lib_def sample_isoformat_def
      sample_clock_def sort_agents_def render_def Let_def is_active_def
      has_status_def get_def active_section_def blocked_section_def idle_section_def
      completed_section_def statistics_def lane_section_def get_or_def count_status_def
      new_stats_def lane_row_def idle_row_def)

lemma sample_failed_run:
  "aggregate_status sample_lib (sample_world (Some [good_file, (''s.json'', Json (JStr ''hello''))]))
     = (Some (AttributeError (JStr ''hello'')),
        sample_world (Some [good_file, (''s.json'', Json (JStr ''hello''))]))"
  by (simp add: aggregate_status_def ensure_dir_def load_agents_def
      glob_json_def entries_def is_json_def sample_world_def good_file_def sort_agents_def)

lemma sample_readonly_run:
  "aggregate_status sample_lib (readonly_world (Some [good_file]))
     = (Some PermissionError, readonly_world (Some [good_file]))"
  by (simp add: aggregate_status_def ensure_dir_def load_agents_def
      glob_json_def entries_def is_json_def sample_world_def readonly_world_def good_file_def
      sort_agents_def)

theorem exit_status_and_error_document_witness:
  "fst (aggregate_status sample_lib (sample_world (Some [good_file, malformed_file]))) = None
   \<and> fst (main sample_lib (sample_world (Some [good_file, malformed_file]))) = 0
   \<and> fst (aggregate_status sample_lib
        (sample_world (Some [good_file, (''s.json'', Json (JStr ''hello''))])))
       = Some (AttributeError (JStr ''hello''))
   \<and> out_writable (sample_world (Some [good_file, (''s.json'', Json (JStr ''hello''))]))
   \<and> fst (main sample_lib (sample_world (Some [good_file, (''s.json'', Json (JStr ''hello''))]))) = 1
   \<and> board (snd (main sample_lib
        (sample_world (Some [good_file, (''s.json'', Json (JStr ''hello''))]))))
       = Some [Title, ErrorLine (AttributeError (JStr ''hello'')),
               LastAttempt ''2024-01-01T10:00:00Z'']
   \<and> fst (aggregate_status sample_lib (readonly_world (Some [good_file]))) = Some PermissionError
   \<and> \<not> out_writable (readonly_world (Some [good_file]))
   \<and> fst (main sample_lib (readonly_world (Some [good_file]))) = 1
   \<and> board (snd (main sample_lib (readonly_world (Some [good_file])))) = None"
proof -
  have z: "utc_z sample_lib (sample_clock 0) = ''2024-01-01T10:00:00Z''"
    by (simp add: utc_z_def sample_lib_def sample_isoformat_def sample_clock_def)
  have w: "out_writable (sample_world (Some [good_file, (''s.json'', Json (JStr ''hello''))]))"
    "clock (sample_world (Some [good_file, (''s.json'', Json (JStr ''hello''))])) = sample_clock"
    "reads (sample_world (Some [good_file, (''s.json'', Json (JStr ''hello''))])) = 0"
    "\<not> out_writable (readonly_world (Some [good_file]))"
    "board (readonly_world (Some [good_file])) = None"
    by (simp_all add: sample_world_def readonly_world_def)
  note t = exit_status_and_error_document [where L = sample_lib]
  show ?thesis
    using
      t [where w = "sample_world (Some [good_file, malformed_file])"
           and w' = "snd (aggregate_status sample_lib (sample_world (Some [good_file, malformed_file])))"]
      t [where w = "sample_world (Some [good_file, (''s.json'', Json (JStr ''hello''))])"
           and e = "AttributeError (JStr ''hello'')"
           and w' = "sample_world (Some [good_file, (''s.json'', Json (JStr ''hello''))])"]
      t [where w = "readonly_world (Some [good_file])" and e = PermissionError
           and w' = "readonly_world (Some [good_file])"]
    by (simp add: sample_success_run sample_failed_run sample_readonly_run w z)
qed

subsection \<open>Sorting\<close>

lemma as_dicts_objects: "as_dicts (map JObj ds) = Inr ds"
  by (induction ds) simp_all

lemma priority_get_rank: "priority_get s = amended_rank (Some s)"
  by (simp add: priority_get_def priority_def amended_rank_def)

lemma sort_key_of_amended: "sort_key_of a = amended_sort_key a"
  by (simp add: sort_key_of_def amended_sort_key_def get_or_def get_def priority_get_rank
      amended_rank_def split: option.splits)

text \<open>
  C1, as the claim states it, fails at a record without a status: the claim gives it
  rank 5, after a completed record; the script sorts it as \<^verbatim>\<open>idle\<close>, before.
\<close>

theorem missing_status_rank_counterexample:
  "sort_agents [JObj done_agent, JObj bare_agent] = Inr [bare_agent, done_agent]
   \<and> sort_key spec_sort_key [done_agent, bare_agent] = [done_agent, bare_agent]
   \<and> spec_rank (get bare_agent ''status'') = 5
   \<and> fst (sort_key_of bare_agent) = 3"
  by (simp add: sort_agents_def sort_key_of_def spec_sort_key_def spec_rank_def get_def
      get_or_def priority_get_def priority_def done_agent_def bare_agent_def)

text \<open>
  C1, amended. A sequence of loaded records is sorted ascending by the pair of rank and
  agentId, where the rank is 0 for \<^verbatim>\<open>in_progress\<close>, 1 for \<^verbatim>\<open>blocked\<close>, 2 for \<^verbatim>\<open>waiting\<close>, 3 for
  \<^verbatim>\<open>idle\<close> and for a missing status, 4 for \<^verbatim>\<open>completed\<close> and 5 for any other status, and a
  missing agentId counts as \<^verbatim>\<open>unknown\<close>. The result has the records of the input, and
  records with the same pair keep their order.
\<close>

theorem sort_is_stable_by_rank_and_id:
  "\<exists>ys. sort_agents (map JObj ds) = Inr ys
      \<and> sorted (map amended_sort_key ys)
      \<and> mset ys = mset ds
      \<and> (\<forall>k. filter (\<lambda>a. amended_sort_key a = k) ys = filter (\<lambda>a. amended_sort_key a = k) ds)"
proof -
  have key: "sort_key_of = amended_sort_key" by (rule ext) (rule sort_key_of_amended)
  have "sort_agents (map JObj ds) = Inr (sort_key amended_sort_key ds)"
    by (simp add: sort_agents_def as_dicts_objects key)
  moreover have "sorted (map amended_sort_key (sort_key amended_sort_key ds))"
    by (rule sorted_sort_key)
  moreover have "mset (sort_key amended_sort_key ds) = mset ds"
    by (rule mset_sort)
  moreover have "\<forall>k. filter (\<lambda>a. amended_sort_key a = k) (sort_key amended_sort_key ds)
      = filter (\<lambda>a. amended_sort_key a = k) ds"
    by (simp add: sort_key_stable)
  ultimately show ?thesis by blast
qed

theorem sort_is_stable_by_rank_and_id_witness:
  "\<exists>ys. sort_agents (map JObj [done_agent, bare_agent, done_agent]) = Inr ys
      \<and> sorted (map amended_sort_key ys)
      \<and> mset ys = mset [done_agent, bare_agent, done_agent]
      \<and> filter (\<lambda>a. amended_sort_key a = (4, ''a'')) ys = [done_agent, done_agent]"
proof -
  from sort_is_stable_by_rank_and_id [of "[done_agent, bare_agent, done_agent]"]
  obtain ys where ys: "sort_agents (map JObj [done_agent, bare_agent, done_agent]) = Inr ys"
    "sorted (map amended_sort_key ys)" "mset ys = mset [done_agent, bare_agent, done_agent]"
    "filter (\<lambda>a. amended_sort_key a = (4, ''a'')) ys
       = filter (\<lambda>a. amended_sort_key a = (4, ''a'')) [done_agent, bare_agent, done_agent]"
    by blast
  have "filter (\<lambda>a. amended_sort_key a = (4, ''a'')) [done_agent, bare_agent, done_agent]
      = [done_agent, done_agent]"
    by (simp add: amended_sort_key_def amended_rank_def get_def done_agent_def bare_agent_def)
  with ys show ?thesis by auto
qed

subsection \<open>The lines of the board\<close>

lemma render_fst:
  "fst (render L agents w)
     = [Title, LastUpdated (utc_z L (clock w (reads w))), TotalAgents (length agents)]
       @ fst (active_section L (filter is_active agents) (w\<lparr>reads := Suc (reads w)\<rparr>))
       @ blocked_section (filter (has_status ''blocked'') agents)
       @ idle_section (filter (has_status ''idle'') agents)
       @ completed_section (filter (has_status ''completed'') agents)
       @ statistics (filter is_active agents) (filter (has_status ''blocked'') agents)
           (filter (has_status ''idle'') agents) (filter (has_status ''completed'') agents)
       @ lane_section agents"
  by (simp add: render_def now_def split_beta Let_def)

lemma active_rows_are_rows: "list_all is_active_row (fst (active_rows L as w))"
  by (induction as arbitrary: w) (simp_all add: split_beta active_row_def is_active_row_def)

lemma active_rows_length: "length (fst (active_rows L as w)) = length as"
  by (induction as arbitrary: w) (simp_all add: split_beta)

lemma filter_none: "list_all P xs \<Longrightarrow> (\<And>x. P x \<Longrightarrow> \<not> Q x) \<Longrightarrow> filter Q xs = []"
  by (induction xs) auto







subsection \<open>Lane utilization\<close>

lemma lane_of_get_or: "get_or a ''lane'' ''unknown'' = lane_of a"
  by (simp add: get_or_def lane_of_def get_def)

lemma count_in_lane_map_of:
  "map_of (count_in_lane lane s lanes)
     = (map_of lanes)(lane \<mapsto>
         count_status s (case map_of lanes lane of None \<Rightarrow> new_stats | Some st \<Rightarrow> st))"
proof (induction lanes)
  case Nil
  show ?case by simp
next
  case (Cons e es)
  obtain l st where e: "e = (l, st)" by (cases e)
  show ?case unfolding e using Cons.IH by (auto simp: fun_eq_iff)
qed

lemma count_in_lane_keys:
  "set (map fst (count_in_lane lane s lanes)) = insert lane (set (map fst lanes))"
  by (induction lanes) auto

lemma count_in_lane_distinct:
  "distinct (map fst lanes) \<Longrightarrow> distinct (map fst (count_in_lane lane s lanes))"
proof (induction lanes)
  case Nil
  show ?case by simp
next
  case (Cons e es)
  then have "distinct (map fst (count_in_lane lane s es))" by simp
  moreover have "set (map fst (count_in_lane lane s es)) = insert lane (set (map fst es))"
    by (rule count_in_lane_keys)
  ultimately show ?case using Cons.prems by auto
qed

lemma count_lanes_keys:
  "set (map fst (count_lanes agents lanes)) = set (map fst lanes) \<union> lane_of ` set agents"
proof (induction agents arbitrary: lanes)
  case Nil
  show ?case by simp
next
  case (Cons a as)
  show ?case
    by (simp only: count_lanes.simps Cons.IH count_in_lane_keys lane_of_get_or) auto
qed

lemma count_lanes_distinct:
  "distinct (map fst lanes) \<Longrightarrow> distinct (map fst (count_lanes agents lanes))"
  by (induction agents arbitrary: lanes) (simp_all add: count_in_lane_distinct)

lemma tally_Cons:
  "tally (a # members) st = tally members (count_status (get_or a ''status'' ''idle'') st)"
  by (simp add: tally_def)

lemma count_lanes_map_of:
  "map_of (count_lanes agents lanes) l
     = (if filter (in_lane l) agents = [] then map_of lanes l
        else Some (tally (filter (in_lane l) agents)
               (case map_of lanes l of None \<Rightarrow> new_stats | Some st \<Rightarrow> st)))"
proof (induction agents arbitrary: lanes)
  case Nil
  show ?case by simp
next
  case (Cons a as)
  let ?lanes = "count_in_lane (lane_of a) (get_or a ''status'' ''idle'') lanes"
  have step: "map_of (count_lanes (a # as) lanes) l = map_of (count_lanes as ?lanes) l"
    by (simp add: lane_of_get_or)
  show ?case
  proof (cases "in_lane l a")
    case True
    then have la: "lane_of a = l" by (simp add: in_lane_def)
    then have "map_of ?lanes l
        = Some (count_status (get_or a ''status'' ''idle'')
            (case map_of lanes l of None \<Rightarrow> new_stats | Some st \<Rightarrow> st))"
      by (simp add: count_in_lane_map_of)
    with True show ?thesis
      unfolding step Cons.IH by (simp add: tally_Cons tally_def)
  next
    case False
    then have "lane_of a \<noteq> l" by (simp add: in_lane_def)
    then have "map_of ?lanes l = map_of lanes l" by (simp add: count_in_lane_map_of)
    with False show ?thesis unfolding step Cons.IH by simp
  qed
qed

lemma status_buckets:
  "get_or a ''status'' ''idle'' = ''in_progress'' \<or> get_or a ''status'' ''idle'' = ''waiting''
     \<longleftrightarrow> counts_active a"
  "get_or a ''status'' ''idle'' = ''blocked'' \<longleftrightarrow> counts_blocked a"
  by (auto simp: get_or_def get_def counts_active_def counts_blocked_def split: option.splits)

lemma count_status_fields:
  "stats_active (count_status (get_or a ''status'' ''idle'') st)
     = stats_active st + (if counts_active a then 1 else 0)"
  "stats_blocked (count_status (get_or a ''status'' ''idle'') st)
     = stats_blocked st + (if counts_blocked a then 1 else 0)"
  "stats_idle (count_status (get_or a ''status'' ''idle'') st)
     = stats_idle st + (if counts_idle a then 1 else 0)"
  using status_buckets [of a]
  by (auto simp: count_status_def counts_idle_def counts_active_def counts_blocked_def)

lemma tally_fields:
  "stats_active (tally members st) = stats_active st + length (filter counts_active members)"
  "stats_blocked (tally members st) = stats_blocked st + length (filter counts_blocked members)"
  "stats_idle (tally members st) = stats_idle st + length (filter counts_idle members)"
  by (induction members arbitrary: st) (simp_all add: tally_Cons count_status_fields, simp_all add: tally_def)

lemma lane_row_tally:
  "lane_row (l, tally (filter (in_lane l) agents) new_stats) = spec_lane_row agents l"
  by (simp add: lane_row_def spec_lane_row_def Let_def tally_fields new_stats_def)

lemma counted_lane_rows:
  assumes "e \<in> set (count_lanes agents [])"
  shows "lane_row e = spec_lane_row agents (fst e)"
proof -
  obtain l st where e: "e = (l, st)" by (cases e)
  have "distinct (map fst (count_lanes agents []))" by (simp add: count_lanes_distinct)
  with assms e have "map_of (count_lanes agents []) l = Some st" by simp
  then have "st = tally (filter (in_lane l) agents) new_stats"
    by (simp add: count_lanes_map_of split: if_splits)
  with e show ?thesis by (simp add: lane_row_tally)
qed

lemma sorted_lanes:
  "map fst (sort_key fst (count_lanes agents [])) = sort (remdups (map lane_of agents))"
proof (rule sorted_distinct_set_unique)
  show "sorted (map fst (sort_key fst (count_lanes agents [])))" by (rule sorted_sort_key)
  have "distinct (map fst (count_lanes agents []))" by (simp add: count_lanes_distinct)
  then show "distinct (map fst (sort_key fst (count_lanes agents [])))"
    by (simp add: distinct_map)
  show "sorted (sort (remdups (map lane_of agents)))" by simp
  show "distinct (sort (remdups (map lane_of agents)))" by simp
  show "set (map fst (sort_key fst (count_lanes agents []))) = set (sort (remdups (map lane_of agents)))"
    using count_lanes_keys [of agents "[]"] by simp
qed

lemma lane_section_spec: "lane_section agents = spec_lane_table agents"
proof (cases agents)
  case Nil
  then show ?thesis by (simp add: lane_section_def spec_lane_table_def)
next
  case (Cons a as)
  have "set (map fst (count_lanes agents [])) \<noteq> {}"
    unfolding count_lanes_keys using Cons by simp
  then have ne: "count_lanes agents [] \<noteq> []" by auto
  have "map lane_row (sort_key fst (count_lanes agents []))
      = map (\<lambda>e. spec_lane_row agents (fst e)) (sort_key fst (count_lanes agents []))"
    by (rule map_cong) (simp_all add: counted_lane_rows)
  also have "\<dots> = map (spec_lane_row agents) (map fst (sort_key fst (count_lanes agents [])))"
    by (simp add: o_def)
  also have "\<dots> = map (spec_lane_row agents) (sort (remdups (map lane_of agents)))"
    by (simp only: sorted_lanes)
  finally show ?thesis using ne Cons by (simp add: lane_section_def spec_lane_table_def Let_def)
qed

lemma active_section_no_lane: "filter is_lane_line (fst (active_section L as w)) = []"
  by (auto simp: active_section_def split_beta is_lane_line_def is_active_row_def
      split: line.splits intro!: filter_none [OF active_rows_are_rows])

lemma sections_no_lane:
  "filter is_lane_line (blocked_section bs) = []"
  "filter is_lane_line (idle_section is) = []"
  "filter is_lane_line (completed_section cs) = []"
  "filter is_lane_line (statistics as bs is cs) = []"
  by (simp_all add: blocked_section_def idle_section_def completed_section_def statistics_def
      is_lane_line_def blocked_row_def idle_row_def completed_row_def filter_map o_def)

lemma spec_lane_table_lines: "filter is_lane_line (spec_lane_table agents) = spec_lane_table agents"
  by (simp add: spec_lane_table_def spec_lane_row_def is_lane_line_def Let_def filter_map o_def)

text \<open>
  C5. The lane lines of the board are the table of the claim: no line when there is no
  record; else the heading and one row for each lane (\<^verbatim>\<open>unknown\<close> for a record without
  one), ascending by lane, with the number of the lane's records that are
  \<^verbatim>\<open>in_progress\<close> or \<^verbatim>\<open>waiting\<close>, the number that are \<^verbatim>\<open>blocked\<close>, the number of all others
  and the sum of the three. A waiting and a blocked record of lane \<^verbatim>\<open>x\<close> give the row
  1, 1, 0, 2.
\<close>

theorem lane_utilization_table:
  "filter is_lane_line (fst (render L agents w)) = spec_lane_table agents
   \<and> lane_section agents = spec_lane_table agents
   \<and> (spec_lane_table agents = [] \<longleftrightarrow> agents = [])
   \<and> lane_section [waiting_x, blocked_x] = [LaneHead, LaneRow ''x'' 1 1 0 2]"
proof -
  have "filter is_lane_line (fst (render L agents w)) = filter is_lane_line (lane_section agents)"
    by (simp add: render_fst active_section_no_lane sections_no_lane is_lane_line_def)
  then have board: "filter is_lane_line (fst (render L agents w)) = spec_lane_table agents"
    by (simp add: lane_section_spec spec_lane_table_lines)
  have "spec_lane_table [waiting_x, blocked_x] = [LaneHead, LaneRow ''x'' 1 1 0 2]"
    by (simp add: spec_lane_table_def spec_lane_row_def Let_def lane_of_def in_lane_def
        counts_active_def counts_blocked_def counts_idle_def get_def waiting_x_def blocked_x_def)
  then have example: "lane_section [waiting_x, blocked_x] = [LaneHead, LaneRow ''x'' 1 1 0 2]"
    by (simp add: lane_section_spec)
  have empty: "spec_lane_table agents = [] \<longleftrightarrow> agents = []"
    by (simp add: spec_lane_table_def)
  from board example empty show ?thesis by (simp add: lane_section_spec)
qed

theorem lane_utilization_table_witness:
  "filter is_lane_line (fst (render sample_lib [blocked_x, waiting_x, bare_agent] (sample_world None)))
     = [LaneHead, LaneRow ''unknown'' 0 0 1 1, LaneRow ''x'' 1 1 0 2]"
proof -
  have "spec_lane_table [blocked_x, waiting_x, bare_agent]
      = [LaneHead, LaneRow ''unknown'' 0 0 1 1, LaneRow ''x'' 1 1 0 2]"
    by (simp add: spec_lane_table_def spec_lane_row_def Let_def lane_of_def in_lane_def
        counts_active_def counts_blocked_def counts_idle_def get_def waiting_x_def blocked_x_def
        bare_agent_def)
  with lane_utilization_table [of sample_lib "[blocked_x, waiting_x, bare_agent]" "sample_world None"]
  show ?thesis by simp
qed

subsection \<open>The Active Work table\<close>

lemma digit_char_no_dot: "digit_char d \<noteq> CHR ''.''"
proof -
  have "d mod 10 < length ''0123456789''" by simp
  then have "''0123456789'' ! (d mod 10) \<in> set ''0123456789''" by (rule nth_mem)
  then show ?thesis unfolding digit_char_def by auto
qed

lemma digits_no_dot: "CHR ''.'' \<notin> set (digits n)"
proof (induction n rule: digits.induct)
  case (1 n)
  show ?case
  proof (cases "n < 10")
    case True
    then show ?thesis using digit_char_no_dot [of n] by (subst digits.simps) auto
  next
    case False
    with 1 have "CHR ''.'' \<notin> set (digits (n div 10))" by simp
    with False show ?thesis using digit_char_no_dot [of n] by (subst digits.simps) auto
  qed
qed

lemma zero_pad_no_dot: "CHR ''.'' \<notin> set (zero_pad k n)"
  by (auto simp: zero_pad_def digits_no_dot)

lemma str_int_no_dot: "CHR ''.'' \<notin> set (str_int i)"
  by (auto simp: str_int_def digits_no_dot)

lemma split_dot_0_append: "CHR ''.'' \<notin> set s \<Longrightarrow> split_dot_0 (s @ CHR ''.'' # t) = s"
  by (auto simp: split_dot_0_def takeWhile_tail)

lemma split_dot_0_id: "CHR ''.'' \<notin> set s \<Longrightarrow> split_dot_0 s = s"
  by (auto simp: split_dot_0_def)

lemma cut_parts:
  fixes d m n :: int
  assumes m: "0 < m" and n: "0 < n"
  shows "(d - d mod m) div (m * n) = d div (m * n)"
    and "((d - d mod m) mod (m * n)) div m = (d mod (m * n)) div m"
    and "(d - d mod m) mod m = 0"
proof -
  have w: "d - d mod m = m * (d div m)" by (simp add: minus_mod_eq_mult_div)
  have r: "d mod m div m = 0" using m by simp
  show "(d - d mod m) div (m * n) = d div (m * n)"
    unfolding w using m n by (simp add: zdiv_zmult2_eq)
  have "(m * (d div m)) mod (m * n) div m = d div m mod n"
    using m by (simp add: mult_mod_right [symmetric])
  moreover have "d mod (m * n) div m = d div m mod n"
    using m n r by (simp add: zmod_zmult2_eq)
  ultimately show "((d - d mod m) mod (m * n)) div m = (d mod (m * n)) div m"
    unfolding w by simp
  show "(d - d mod m) mod m = 0" unfolding w by simp
qed

lemma whole_seconds_parts:
  "whole_seconds d div 86400000000 = d div 86400000000"
  "(whole_seconds d mod 86400000000) div 1000000 = (d mod 86400000000) div 1000000"
  "whole_seconds d mod 1000000 = 0"
proof -
  have e: "(1000000::int) * 86400 = 86400000000" by simp
  have m: "(0::int) < 1000000" and n: "(0::int) < 86400" by simp_all
  note p = cut_parts [OF m n, of d, unfolded e, folded whole_seconds_def]
  show "whole_seconds d div 86400000000 = d div 86400000000" by (rule p(1))
  show "(whole_seconds d mod 86400000000) div 1000000 = (d mod 86400000000) div 1000000"
    by (rule p(2))
  show "whole_seconds d mod 1000000 = 0" by (rule p(3))
qed

lemma str_timedelta_whole_seconds: "split_dot_0 (str_timedelta d) = str_timedelta (whole_seconds d)"
proof -
  define days where "days = d div 86400000000"
  define seconds where "seconds = nat ((d mod 86400000000) div 1000000)"
  define s where "s = digits (seconds div 60 div 60) @ '':'' @ zero_pad 2 (seconds div 60 mod 60)
      @ '':'' @ zero_pad 2 (seconds mod 60)"
  define s1 where "s1 = (if days \<noteq> 0
      then str_int days @ '' day'' @ (if \<bar>days\<bar> \<noteq> 1 then ''s'' else '''') @ '', '' @ s
      else s)"
  have s: "CHR ''.'' \<notin> set s"
    by (simp add: s_def digits_no_dot zero_pad_no_dot)
  have s1: "CHR ''.'' \<notin> set s1"
    using s by (simp add: s1_def str_int_no_dot)
  have full: "str_timedelta d
      = (if nat (d mod 1000000) \<noteq> 0 then s1 @ ''.'' @ zero_pad 6 (nat (d mod 1000000)) else s1)"
    unfolding str_timedelta_def Let_def s1_def s_def days_def seconds_def by (rule refl)
  have "str_timedelta (whole_seconds d) = (if nat 0 \<noteq> 0 then s1 @ ''.'' @ zero_pad 6 (nat 0) else s1)"
    unfolding str_timedelta_def Let_def whole_seconds_parts s1_def s_def days_def seconds_def
    by (rule refl)
  then have cut: "str_timedelta (whole_seconds d) = s1"
    by (simp only: nat_0 simp_thms if_False)
  show ?thesis
    unfolding full cut using s1 by (simp add: split_dot_0_append split_dot_0_id)
qed

lemma duration_of_spec:
  "fst (duration_of L agent w) = spec_duration L agent (clock w (reads w))"
  by (simp add: duration_of_def spec_duration_def aware_start_def now_def
      str_timedelta_whole_seconds split: option.splits parsed.splits)

lemma active_row_fst:
  "fst (active_row L agent w)
     = ActiveRow (get_or agent ''agentId'' ''unknown'')
         (status_emoji (get_or agent ''status'' ''idle''))
         (get_or agent ''status'' ''unknown'')
         (take 30 (get_or agent ''task'' ''-''))
         (take 20 (get_or agent ''branch'' ''-''))
         (take 16 (get_or agent ''started'' ''-''))
         (spec_duration L agent (clock w (reads w)))"
  by (simp add: active_row_def split_beta duration_of_spec)

lemma active_rows_each:
  "list_all2 (\<lambda>row a. \<exists>k. reads w \<le> k \<and> row = fst (active_row L a (w\<lparr>reads := k\<rparr>)))
     (fst (active_rows L active w)) active"
proof (induction active arbitrary: w)
  case Nil
  show ?case by simp
next
  case (Cons a as)
  let ?w1 = "snd (duration_of L a w)"
  let ?k1 = "reads ?w1"
  have w1: "?w1 = w\<lparr>reads := ?k1\<rparr>" by (rule duration_of_frame)
  have k1: "reads w \<le> ?k1" by (rule duration_of_mono)
  have head: "\<exists>k. reads w \<le> k \<and> fst (active_row L a w) = fst (active_row L a (w\<lparr>reads := k\<rparr>))"
    by (rule exI [of _ "reads w"]) simp
  have "list_all2 (\<lambda>row a. \<exists>k. reads ?w1 \<le> k \<and> row = fst (active_row L a (?w1\<lparr>reads := k\<rparr>)))
      (fst (active_rows L as ?w1)) as"
    by (rule Cons.IH)
  then have tail: "list_all2 (\<lambda>row a. \<exists>k. reads w \<le> k \<and> row = fst (active_row L a (w\<lparr>reads := k\<rparr>)))
      (fst (active_rows L as ?w1)) as"
  proof (rule list_all2_mono)
    fix row b
    assume "\<exists>k. reads ?w1 \<le> k \<and> row = fst (active_row L b (?w1\<lparr>reads := k\<rparr>))"
    then obtain k where k: "?k1 \<le> k" "row = fst (active_row L b (?w1\<lparr>reads := k\<rparr>))" by blast
    have "?w1\<lparr>reads := k\<rparr> = w\<lparr>reads := k\<rparr>" by (subst w1) simp
    with k k1 show "\<exists>k. reads w \<le> k \<and> row = fst (active_row L b (w\<lparr>reads := k\<rparr>))"
      by (intro exI [of _ k]) simp
  qed
  from head tail show ?case by (simp add: split_beta active_row_snd)
qed

lemma sections_no_active_row:
  "filter is_active_row (blocked_section bs) = []"
  "filter is_active_row (idle_section is) = []"
  "filter is_active_row (completed_section cs) = []"
  "filter is_active_row (statistics as bs is cs) = []"
  "filter is_active_row (lane_section agents) = []"
  by (simp_all add: blocked_section_def idle_section_def completed_section_def statistics_def
      lane_section_def is_active_row_def blocked_row_def idle_row_def completed_row_def
      lane_row_def Let_def filter_map o_def)

lemma filter_all: "list_all P xs \<Longrightarrow> filter P xs = xs"
  by (induction xs) auto

lemma active_section_fst:
  "fst (active_section L as w) = (if as \<noteq> [] then ActiveHead # fst (active_rows L as w) else [])"
  by (simp add: active_section_def split_beta)

lemma active_section_rows:
  "filter is_active_row (fst (active_section L as w)) = fst (active_rows L as w)"
proof (cases "as = []")
  case True
  then show ?thesis by (simp add: active_section_fst)
next
  case False
  have "\<not> is_active_row ActiveHead" by (simp add: is_active_row_def)
  with False show ?thesis
    by (simp add: active_section_fst filter_all [OF active_rows_are_rows])
qed

lemma board_active_rows:
  "filter is_active_row (fst (render L agents w))
     = fst (active_rows L (filter is_active agents) (w\<lparr>reads := Suc (reads w)\<rparr>))"
  by (simp add: render_fst sections_no_active_row active_section_rows is_active_row_def)

text \<open>
  C7, as the claim states it, fails at a \<^verbatim>\<open>started\<close> that is ISO-8601 without a UTC offset:
  it parses, and the duration is the placeholder.
\<close>

theorem naive_start_counterexample:
  "fromisoformat sample_lib (py_replace ''Z'' ''+00:00'' ''2024-01-01T10:00:00'') = Naive
   \<and> fst (active_row sample_lib naive_agent (sample_world None))
       = ActiveRow ''n'' Arrows ''in_progress'' ''-'' ''-'' ''2024-01-01T10:00'' ''-''"
  by (simp add: active_row_def duration_of_def naive_agent_def get_def get_or_def
      sample_lib_def sample_fromisoformat_def status_emoji_def now_def)

text \<open>
  C7, amended. A row of the Active Work table shows the first 30 characters of the task,
  the first 20 of the branch and the first 16 of \<^verbatim>\<open>started\<close> (of the placeholder, for a
  missing field), with nothing appended. Its duration is the time from the start to
  the clock reading taken for that row, cut to whole seconds, when \<^verbatim>\<open>started\<close> is there,
  is not empty and parses to a datetime with a UTC offset; else it is the placeholder.
  The rows of the table on the board are the rows of the active records, in order, each
  at a reading of its own. 90 seconds after the start, the duration is \<^verbatim>\<open>0:01:30\<close>.
\<close>

theorem active_row_cells:
  "fst (active_row L agent w)
     = ActiveRow (get_or agent ''agentId'' ''unknown'')
         (status_emoji (get_or agent ''status'' ''idle''))
         (get_or agent ''status'' ''unknown'')
         (take 30 (get_or agent ''task'' ''-''))
         (take 20 (get_or agent ''branch'' ''-''))
         (take 16 (get_or agent ''started'' ''-''))
         (spec_duration L agent (clock w (reads w)))
   \<and> list_all2 (\<lambda>row a. \<exists>k. reads w < k \<and> row = fst (active_row L a (w\<lparr>reads := k\<rparr>)))
        (filter is_active_row (fst (render L agents w))) (filter is_active agents)
   \<and> (aware_start L agent = Some t0 \<longrightarrow> spec_duration L agent (t0 + 90000000) = ''0:01:30'')"
proof (intro conjI impI)
  show "fst (active_row L agent w)
     = ActiveRow (get_or agent ''agentId'' ''unknown'')
         (status_emoji (get_or agent ''status'' ''idle''))
         (get_or agent ''status'' ''unknown'')
         (take 30 (get_or agent ''task'' ''-''))
         (take 20 (get_or agent ''branch'' ''-''))
         (take 16 (get_or agent ''started'' ''-''))
         (spec_duration L agent (clock w (reads w)))"
    by (rule active_row_fst)
next
  let ?w1 = "w\<lparr>reads := Suc (reads w)\<rparr>"
  have "list_all2 (\<lambda>row a. \<exists>k. reads ?w1 \<le> k \<and> row = fst (active_row L a (?w1\<lparr>reads := k\<rparr>)))
      (fst (active_rows L (filter is_active agents) ?w1)) (filter is_active agents)"
    by (rule active_rows_each)
  then have "list_all2 (\<lambda>row a. \<exists>k. reads w < k \<and> row = fst (active_row L a (w\<lparr>reads := k\<rparr>)))
      (fst (active_rows L (filter is_active agents) ?w1)) (filter is_active agents)"
  proof (rule list_all2_mono)
    fix row a
    assume "\<exists>k. reads ?w1 \<le> k \<and> row = fst (active_row L a (?w1\<lparr>reads := k\<rparr>))"
    then obtain k where "Suc (reads w) \<le> k" "row = fst (active_row L a (w\<lparr>reads := k\<rparr>))"
      by auto
    then show "\<exists>k. reads w < k \<and> row = fst (active_row L a (w\<lparr>reads := k\<rparr>))"
      by (intro exI [of _ k]) simp
  qed
  then show "list_all2 (\<lambda>row a. \<exists>k. reads w < k \<and> row = fst (active_row L a (w\<lparr>reads := k\<rparr>)))
      (filter is_active_row (fst (render L agents w))) (filter is_active agents)"
    by (simp only: board_active_rows)
next
  assume "aware_start L agent = Some t0"
  moreover have "str_timedelta (whole_seconds 90000000) = ''0:01:30''"
    by (simp add: whole_seconds_def str_timedelta_def zero_pad_def digits.simps digit_char_def)
  ultimately show "spec_duration L agent (t0 + 90000000) = ''0:01:30''"
    by (simp add: spec_duration_def)
qed

theorem active_row_cells_witness:
  "aware_start sample_lib aware_agent = Some 1704103200000000
   \<and> clock ((sample_world None)\<lparr>reads := 1\<rparr>) (reads ((sample_world None)\<lparr>reads := 1\<rparr>))
       = 1704103200000000 + 90000000
   \<and> length (get_or aware_agent ''task'' ''-'') = 50
   \<and> fst (active_row sample_lib aware_agent ((sample_world None)\<lparr>reads := 1\<rparr>))
       = ActiveRow ''a'' Arrows ''in_progress'' ''0123456789abcdefghijklmnopqrst''
           ''feature/a-branch-nam'' ''2024-01-01T10:00'' ''0:01:30''"
proof -
  have a: "aware_start sample_lib aware_agent = Some 1704103200000000"
    by (simp add: aware_start_def aware_agent_def get_def sample_lib_def sample_fromisoformat_def)
  have c: "clock ((sample_world None)\<lparr>reads := 1\<rparr>) (reads ((sample_world None)\<lparr>reads := 1\<rparr>))
      = 1704103200000000 + 90000000"
    by (simp add: sample_world_def sample_clock_def)
  have f: "get_or aware_agent ''agentId'' ''unknown'' = ''a''"
    "get_or aware_agent ''status'' ''idle'' = ''in_progress''"
    "get_or aware_agent ''status'' ''unknown'' = ''in_progress''"
    "get_or aware_agent ''task'' ''-'' = ''0123456789abcdefghijklmnopqrstuvwxyzABCDEFGHIJKLMN''"
    "get_or aware_agent ''branch'' ''-'' = ''feature/a-branch-name-of-32-chars''"
    "get_or aware_agent ''started'' ''-'' = ''2024-01-01T10:00:00Z''"
    by (simp_all add: aware_agent_def get_or_def)
  have e: "status_emoji ''in_progress'' = Arrows" by (simp add: status_emoji_def)
  note t = active_row_cells [of sample_lib aware_agent "(sample_world None)\<lparr>reads := 1\<rparr>" "[]"
      1704103200000000]
  from t [THEN conjunct2, THEN conjunct2] a
  have d: "spec_duration sample_lib aware_agent (1704103200000000 + 90000000) = ''0:01:30''"
    by blast
  from t [THEN conjunct1] show ?thesis
    unfolding c using a d by (simp add: f e c)
qed

subsection \<open>The readings of the clock\<close>

lemma agree_less: "agree c w k \<Longrightarrow> k' \<le> k \<Longrightarrow> agree c w k'"
  by (simp add: agree_def)

lemma agree_later:
  "agree c w k \<Longrightarrow> reads w \<le> reads w' \<Longrightarrow> clock w' = clock w \<Longrightarrow> agree c w' k"
  by (simp add: agree_def)

lemma agree_next: "agree c w k \<Longrightarrow> reads w < k \<Longrightarrow> c (reads w) = clock w (reads w)"
  by (simp add: agree_def)

lemma clock_reads_updates: "w\<lparr>reads := k, clock := c\<rparr> = w\<lparr>clock := c, reads := k\<rparr>"
  by (cases w) simp

lemma now_swap:
  assumes "agree c w (reads (snd (now w)))"
  shows "now (w\<lparr>clock := c\<rparr>) = (fst (now w), (snd (now w))\<lparr>clock := c\<rparr>)"
proof -
  from assms have "c (reads w) = clock w (reads w)"
    by (rule agree_next) (simp add: now_def)
  then show ?thesis by (simp add: now_def)
qed

lemma duration_of_clock: "clock (snd (duration_of L a w)) = clock w"
  by (subst duration_of_frame) simp

lemma duration_of_swap:
  assumes "agree c w (reads (snd (duration_of L a w)))"
  shows "duration_of L a (w\<lparr>clock := c\<rparr>)
       = (fst (duration_of L a w), (snd (duration_of L a w))\<lparr>clock := c\<rparr>)"
proof (cases "reads (snd (duration_of L a w)) = reads w")
  case True
  then show ?thesis
    by (auto simp: duration_of_def now_def split: option.splits parsed.splits)
next
  case False
  then have "reads (snd (duration_of L a w)) = Suc (reads w)"
    by (auto simp: duration_of_def now_def split: option.splits parsed.splits if_splits)
  with assms have "c (reads w) = clock w (reads w)" by (simp add: agree_def)
  then show ?thesis
    by (auto simp: duration_of_def now_def split: option.splits parsed.splits)
qed

lemma active_row_swap:
  assumes "agree c w (reads (snd (active_row L a w)))"
  shows "active_row L a (w\<lparr>clock := c\<rparr>)
       = (fst (active_row L a w), (snd (active_row L a w))\<lparr>clock := c\<rparr>)"
  using duration_of_swap [of c w L a] assms
  by (simp add: active_row_def split_beta)

lemma active_rows_clock: "clock (snd (active_rows L as w)) = clock w"
  by (subst active_rows_frame) simp

lemma active_rows_swap:
  "agree c w (reads (snd (active_rows L as w))) \<Longrightarrow>
     active_rows L as (w\<lparr>clock := c\<rparr>)
       = (fst (active_rows L as w), (snd (active_rows L as w))\<lparr>clock := c\<rparr>)"
proof (induction as arbitrary: w)
  case Nil
  show ?case by simp
next
  case (Cons a as)
  let ?w1 = "snd (active_row L a w)"
  let ?w2 = "snd (active_rows L as ?w1)"
  have fin: "snd (active_rows L (a # as) w) = ?w2" by (simp add: split_beta)
  have r1: "reads w \<le> reads ?w1" by (simp add: active_row_snd duration_of_mono)
  have r2: "reads ?w1 \<le> reads ?w2" by (rule active_rows_mono)
  have c1: "clock ?w1 = clock w" by (simp add: active_row_snd duration_of_clock)
  from Cons.prems have ag: "agree c w (reads ?w2)" by (simp only: fin)
  from ag r2 have "agree c w (reads ?w1)" by (rule agree_less)
  then have first: "active_row L a (w\<lparr>clock := c\<rparr>)
      = (fst (active_row L a w), ?w1\<lparr>clock := c\<rparr>)"
    by (rule active_row_swap)
  from ag r1 c1 have "agree c ?w1 (reads ?w2)" by (rule agree_later)
  then have rest: "active_rows L as (?w1\<lparr>clock := c\<rparr>)
      = (fst (active_rows L as ?w1), ?w2\<lparr>clock := c\<rparr>)"
    by (rule Cons.IH)
  show ?case by (simp add: split_beta first rest)
qed

lemma active_section_swap:
  assumes "agree c w (reads (snd (active_section L as w)))"
  shows "active_section L as (w\<lparr>clock := c\<rparr>)
       = (fst (active_section L as w), (snd (active_section L as w))\<lparr>clock := c\<rparr>)"
proof (cases "as = []")
  case True
  then show ?thesis by (simp add: active_section_def)
next
  case False
  from assms have "agree c w (reads (snd (active_rows L as w)))"
    by (simp add: active_section_snd)
  from active_rows_swap [OF this] False show ?thesis
    by (simp add: active_section_def split_beta)
qed

lemma render_swap:
  assumes "agree c w (reads (snd (render L agents w)))"
  shows "render L agents (w\<lparr>clock := c\<rparr>)
       = (fst (render L agents w), (snd (render L agents w))\<lparr>clock := c\<rparr>)"
proof -
  let ?w1 = "w\<lparr>reads := Suc (reads w)\<rparr>"
  let ?active = "filter is_active agents"
  note less = render_mono [of w L agents]
  from assms less have head: "c (reads w) = clock w (reads w)" by (rule agree_next)
  have "agree c ?w1 (reads (snd (render L agents w)))"
    using assms by (rule agree_later) simp_all
  then have "agree c ?w1 (reads (snd (active_section L ?active ?w1)))"
    by (simp add: render_snd active_section_snd)
  from active_section_swap [OF this]
  have rows: "active_section L ?active (w\<lparr>clock := c, reads := Suc (reads w)\<rparr>)
      = (fst (active_section L ?active ?w1), (snd (active_section L ?active ?w1))\<lparr>clock := c\<rparr>)"
    by (simp only: clock_reads_updates)
  show ?thesis
    by (simp add: render_def now_def Let_def split_beta head rows)
qed

lemma print_swap: "print m (w\<lparr>clock := c\<rparr>) = (print m w)\<lparr>clock := c\<rparr>"
  by (simp add: print_def)

lemma load_files_swap:
  "load_files fs agents (w\<lparr>clock := c\<rparr>)
     = (fst (load_files fs agents w), (snd (load_files fs agents w))\<lparr>clock := c\<rparr>)"
proof (induction fs arbitrary: agents w)
  case Nil
  show ?case by simp
next
  case (Cons f fs)
  obtain n content where f: "f = (n, content)" by (cases f)
  show ?case unfolding f
    by (cases content) (simp_all add: print_swap Cons.IH)
qed

lemma create_system_status_swap:
  assumes "c (reads w) = clock w (reads w)"
  shows "create_system_status L (w\<lparr>clock := c\<rparr>)
       = (fst (create_system_status L w), (snd (create_system_status L w))\<lparr>clock := c\<rparr>)"
  using assms by (simp add: create_system_status_def now_def)

lemma ensure_dir_reads:
  "reads (snd (ensure_dir L w)) = (if status_dir w = None then Suc (reads w) else reads w)"
  by (simp add: ensure_dir_snd)

lemma ensure_dir_swap:
  assumes "status_dir w = None \<Longrightarrow> c (reads w) = clock w (reads w)"
  shows "snd (ensure_dir L (w\<lparr>clock := c\<rparr>)) = (snd (ensure_dir L w))\<lparr>clock := c\<rparr>"
proof (cases "status_dir w")
  case None
  with assms have "c (reads w) = clock w (reads w)" by simp
  with None show ?thesis
    by (simp add: ensure_dir_snd create_system_status_fst)
next
  case (Some d)
  then show ?thesis by (simp add: ensure_dir_snd)
qed

lemma load_agents_reads:
  "reads (snd (load_agents L w)) = (if glob_json w = [] then Suc (reads w) else reads w)"
proof (cases "glob_json w = []")
  case True
  then show ?thesis
    by (simp add: load_agents_def Let_def split_beta create_system_status_snd print_def
        write_status_def split: option.splits)
next
  case False
  obtain r w1 where lf: "load_files (glob_json w) [] w = (r, w1)"
    by (cases "load_files (glob_json w) [] w")
  from load_files_frame [OF lf] lf False show ?thesis
    by (simp add: load_agents_def Let_def)
qed

lemma glob_json_swap: "glob_json (w\<lparr>clock := c\<rparr>) = glob_json w"
  by (simp add: glob_json_def entries_def)

lemma load_agents_swap:
  assumes "glob_json w = [] \<Longrightarrow> c (reads w) = clock w (reads w)"
  shows "load_agents L (w\<lparr>clock := c\<rparr>)
       = (fst (load_agents L w), (snd (load_agents L w))\<lparr>clock := c\<rparr>)"
proof (cases "glob_json w = []")
  case True
  with assms have "c (reads w) = clock w (reads w)" by simp
  with True show ?thesis
    by (simp add: load_agents_def glob_json_swap Let_def create_system_status_def now_def
        print_def write_status_def entries_def split: option.splits)
next
  case False
  then show ?thesis
    by (simp add: load_agents_def glob_json_swap Let_def load_files_swap)
qed

lemma load_stage_clock: "clock (snd (load_agents L (snd (ensure_dir L w)))) = clock w"
  using load_agents_frame [of L "snd (ensure_dir L w)"] ensure_dir_frame [of L w]
  by (cases "load_agents L (snd (ensure_dir L w))") simp

lemma load_stage_mono: "reads w \<le> reads (snd (load_agents L (snd (ensure_dir L w))))"
  by (simp add: load_agents_reads ensure_dir_reads)

lemma load_stage_swap:
  assumes "agree c w (reads (snd (load_agents L (snd (ensure_dir L w)))))"
  shows "load_agents L (snd (ensure_dir L (w\<lparr>clock := c\<rparr>)))
       = (fst (load_agents L (snd (ensure_dir L w))), (snd (load_agents L (snd (ensure_dir L w))))\<lparr>clock := c\<rparr>)"
proof -
  let ?w0 = "snd (ensure_dir L w)"
  have first: "snd (ensure_dir L (w\<lparr>clock := c\<rparr>)) = ?w0\<lparr>clock := c\<rparr>"
  proof (rule ensure_dir_swap)
    assume "status_dir w = None"
    then have "reads w < reads (snd (load_agents L ?w0))"
      by (simp add: load_agents_reads ensure_dir_reads)
    with assms show "c (reads w) = clock w (reads w)" by (rule agree_next)
  qed
  have "load_agents L (?w0\<lparr>clock := c\<rparr>)
      = (fst (load_agents L ?w0), (snd (load_agents L ?w0))\<lparr>clock := c\<rparr>)"
  proof (rule load_agents_swap)
    assume "glob_json ?w0 = []"
    then have less: "reads ?w0 < reads (snd (load_agents L ?w0))"
      by (simp add: load_agents_reads)
    have "agree c ?w0 (reads (snd (load_agents L ?w0)))"
      using assms by (rule agree_later) (simp_all add: ensure_dir_reads ensure_dir_frame)
    then show "c (reads ?w0) = clock ?w0 (reads ?w0)" using less by (rule agree_next)
  qed
  with first show ?thesis by simp
qed

text \<open>The board of a run that succeeds is rendered from the sorted records.\<close>

lemma board_of_run:
  assumes "load_agents L (snd (ensure_dir L w)) = (Inr loaded, w1)"
    and "sort_agents loaded = Inr agents"
    and "out_writable w1"
  shows "fst (main L w) = 0" and "board (snd (main L w)) = Some (fst (render L agents w1))"
  using assms by (simp_all add: main_def aggregate_status_cases [OF assms(1)])

lemma aggregate_status_mono: "reads w \<le> reads (snd (aggregate_status L w))"
proof -
  obtain r w1 where la: "load_agents L (snd (ensure_dir L w)) = (r, w1)"
    by (cases "load_agents L (snd (ensure_dir L w))")
  have "reads w \<le> reads w1" using load_stage_mono [of w L] la by simp
  moreover have "reads w1 \<le> reads (snd (aggregate_status L w))"
    unfolding aggregate_status_cases [OF la]
    using render_mono [of w1 L] by (auto split: sum.splits simp: less_imp_le)
  ultimately show ?thesis by simp
qed

lemma aggregate_status_clock: "clock (snd (aggregate_status L w)) = clock w"
proof -
  obtain r w1 where la: "load_agents L (snd (ensure_dir L w)) = (r, w1)"
    by (cases "load_agents L (snd (ensure_dir L w))")
  have "clock w1 = clock w" using load_stage_clock [of L w] la by simp
  then show ?thesis
    unfolding aggregate_status_cases [OF la]
    by (auto split: sum.splits simp: render_fields)
qed

lemma aggregate_status_swap:
  assumes "agree c w (reads (snd (aggregate_status L w)))"
  shows "aggregate_status L (w\<lparr>clock := c\<rparr>)
       = (fst (aggregate_status L w), (snd (aggregate_status L w))\<lparr>clock := c\<rparr>)"
proof -
  obtain r w1 where la: "load_agents L (snd (ensure_dir L w)) = (r, w1)"
    by (cases "load_agents L (snd (ensure_dir L w))")
  note agg = aggregate_status_cases [OF la]
  have r1: "reads w \<le> reads w1" using load_stage_mono [of w L] la by simp
  have c1: "clock w1 = clock w" using load_stage_clock [of L w] la by simp
  have fin: "reads w1 \<le> reads (snd (aggregate_status L w))"
    unfolding agg using render_mono [of w1 L] by (auto split: sum.splits simp: less_imp_le)
  from assms fin have "agree c w (reads (snd (load_agents L (snd (ensure_dir L w)))))"
    unfolding la snd_conv by (rule agree_less)
  from load_stage_swap [OF this]
  have la': "load_agents L (snd (ensure_dir L (w\<lparr>clock := c\<rparr>))) = (r, w1\<lparr>clock := c\<rparr>)"
    by (simp add: la)
  note agg' = aggregate_status_cases [OF la']
  have ag1: "agree c w1 (reads (snd (aggregate_status L w)))"
    using assms r1 c1 by (rule agree_later)
  show ?thesis
  proof (cases r)
    case (Inl e)
    then show ?thesis by (simp add: agg agg')
  next
    case (Inr loaded)
    show ?thesis
    proof (cases "sort_agents loaded")
      case (Inl e)
      with Inr show ?thesis by (simp add: agg agg')
    next
      case sorted: (Inr agents)
      show ?thesis
      proof (cases "out_writable w1")
        case False
        with Inr sorted show ?thesis by (simp add: agg agg')
      next
        case True
        with Inr sorted have "reads (snd (aggregate_status L w)) = reads (snd (render L agents w1))"
          by (simp add: agg)
        with ag1 have "agree c w1 (reads (snd (render L agents w1)))" by simp
        from render_swap [OF this] True Inr sorted show ?thesis
          by (simp add: agg agg')
      qed
    qed
  qed
qed

lemma main_mono: "reads w \<le> reads (snd (main L w))"
proof -
  have "reads (snd (aggregate_status L w)) \<le> reads (snd (main L w))"
    by (cases "aggregate_status L w")
       (auto simp: main_def on_error_def Let_def print_def now_def split: option.splits)
  with aggregate_status_mono [of w L] show ?thesis by simp
qed

lemma main_swap:
  assumes "agree c w (reads (snd (main L w)))"
  shows "main L (w\<lparr>clock := c\<rparr>) = (fst (main L w), (snd (main L w))\<lparr>clock := c\<rparr>)"
proof -
  obtain r w1 where agg: "aggregate_status L w = (r, w1)" by (cases "aggregate_status L w")
  have r1: "reads w \<le> reads w1" using aggregate_status_mono [of w L] agg by simp
  have c1: "clock w1 = clock w" using aggregate_status_clock [of L w] agg by simp
  have fin: "reads w1 \<le> reads (snd (main L w))"
    using agg by (auto simp: main_def on_error_def Let_def print_def now_def split: option.splits)
  from assms fin have "agree c w (reads (snd (aggregate_status L w)))"
    unfolding agg snd_conv by (rule agree_less)
  from aggregate_status_swap [OF this]
  have agg': "aggregate_status L (w\<lparr>clock := c\<rparr>) = (r, w1\<lparr>clock := c\<rparr>)"
    by (simp add: agg)
  show ?thesis
  proof (cases r)
    case None
    then show ?thesis by (simp add: main_def agg agg')
  next
    case (Some e)
    show ?thesis
    proof (cases "out_writable w1")
      case False
      with Some show ?thesis by (simp add: main_def on_error_def agg agg' print_def)
    next
      case True
      with Some have "reads w1 < reads (snd (main L w))"
        by (simp add: main_def on_error_def agg print_def now_def)
      moreover have "agree c w1 (reads (snd (main L w)))"
        using assms r1 c1 by (rule agree_later)
      ultimately have "c (reads w1) = clock w1 (reads w1)" by (simp add: agree_def)
      with True Some show ?thesis
        by (simp add: main_def on_error_def agg agg' print_def now_def)
    qed
  qed
qed

lemma busy_run:
  "main sample_lib busy_world
     = (0, busy_world
          \<lparr>reads := 2,
           board := Some [Title, LastUpdated ''2024-01-01T10:00:00Z'', TotalAgents 1,
                  ActiveHead,
                  ActiveRow ''a'' Arrows ''in_progress'' ''0123456789abcdefghijklmnopqrst''
                    ''feature/a-branch-nam'' ''2024-01-01T10:00'' ''0:01:30'',
                  StatsHead, StatActive 1, StatBlocked 0, StatIdle 0, StatCompleted 0,
                  LaneHead, LaneRow ''unknown'' 1 0 0 1],
           console := [Success, ActiveAgents 1, BlockedAgents 0, IdleAgents 0]\<rparr>)"
  by (simp add: main_def aggregate_status_def ensure_dir_def load_agents_def
      glob_json_def entries_def is_json_def busy_world_def sample_world_def aware_agent_def
      print_def now_def utc_z_def sample_lib_def sample_isoformat_def sample_fromisoformat_def
      sample_clock_def sort_agents_def render_def Let_def is_active_def
      has_status_def get_def active_section_def blocked_section_def idle_section_def
      completed_section_def statistics_def lane_section_def get_or_def count_status_def
      new_stats_def lane_row_def active_row_def duration_of_def status_emoji_def
      split_dot_0_def str_timedelta_def zero_pad_def digits.simps digit_char_def)

text \<open>
  C8, as the claim states it, fails: the header and the duration of a row come from two
  readings of the clock. Two runs whose clocks give the same first reading and differ
  at the second render different boards.
\<close>

theorem clock_resampled_counterexample:
  "clock busy_world (reads busy_world) = slow_clock (reads busy_world)
   \<and> board (snd (main sample_lib busy_world))
       = Some [Title, LastUpdated ''2024-01-01T10:00:00Z'', TotalAgents 1,
               ActiveHead,
               ActiveRow ''a'' Arrows ''in_progress'' ''0123456789abcdefghijklmnopqrst''
                 ''feature/a-branch-nam'' ''2024-01-01T10:00'' ''0:01:30'',
               StatsHead, StatActive 1, StatBlocked 0, StatIdle 0, StatCompleted 0,
               LaneHead, LaneRow ''unknown'' 1 0 0 1]
   \<and> board (snd (main sample_lib (busy_world\<lparr>clock := slow_clock\<rparr>)))
       = Some [Title, LastUpdated ''2024-01-01T10:00:00Z'', TotalAgents 1,
               ActiveHead,
               ActiveRow ''a'' Arrows ''in_progress'' ''0123456789abcdefghijklmnopqrst''
                 ''feature/a-branch-nam'' ''2024-01-01T10:00'' ''0:02:30'',
               StatsHead, StatActive 1, StatBlocked 0, StatIdle 0, StatCompleted 0,
               LaneHead, LaneRow ''unknown'' 1 0 0 1]"
  by (simp add: main_def aggregate_status_def ensure_dir_def load_agents_def
      glob_json_def entries_def is_json_def busy_world_def sample_world_def aware_agent_def
      print_def now_def utc_z_def sample_lib_def sample_isoformat_def sample_fromisoformat_def
      sample_clock_def slow_clock_def sort_agents_def render_def Let_def is_active_def
      has_status_def get_def active_section_def blocked_section_def idle_section_def
      completed_section_def statistics_def lane_section_def get_or_def count_status_def
      new_stats_def lane_row_def active_row_def duration_of_def status_emoji_def
      split_dot_0_def str_timedelta_def zero_pad_def digits.simps digit_char_def)

text \<open>Which reading each row takes.\<close>

lemma duration_of_reads:
  "reads (snd (duration_of L a w)) = (if reads_clock L a then Suc (reads w) else reads w)"
  by (simp add: duration_of_def reads_clock_def now_def split: option.splits parsed.splits)

lemma active_row_spec: "fst (active_row L a w) = spec_row L a (clock w (reads w))"
  by (simp add: active_row_fst spec_row_def)

lemma active_rows_spec:
  "fst (active_rows L as w) = spec_rows L (clock w) (reads w) as
   \<and> reads (snd (active_rows L as w)) = reads w + length (filter (reads_clock L) as)"
proof (induction as arbitrary: w)
  case Nil
  show ?case by simp
next
  case (Cons a as)
  let ?w1 = "snd (active_row L a w)"
  have r1: "reads ?w1 = (if reads_clock L a then Suc (reads w) else reads w)"
    by (simp add: active_row_snd duration_of_reads)
  have c1: "clock ?w1 = clock w" by (simp add: active_row_snd duration_of_clock)
  from Cons.IH [of ?w1]
  have "fst (active_rows L as ?w1)
        = spec_rows L (clock w) (if reads_clock L a then Suc (reads w) else reads w) as"
    and "reads (snd (active_rows L as ?w1))
        = (if reads_clock L a then Suc (reads w) else reads w) + length (filter (reads_clock L) as)"
    by (simp_all only: r1 c1)
  then show ?case by (simp add: split_beta active_row_spec)
qed

lemma sections_no_header:
  "filter is_last_updated (fst (active_section L as w)) = []"
  "filter is_last_updated (blocked_section bs) = []"
  "filter is_last_updated (idle_section is) = []"
  "filter is_last_updated (completed_section cs) = []"
  "filter is_last_updated (statistics as bs is cs) = []"
  "filter is_last_updated (lane_section agents) = []"
proof -
  show "filter is_last_updated (fst (active_section L as w)) = []"
    by (auto simp: active_section_def split_beta is_last_updated_def is_active_row_def
        split: line.splits intro!: filter_none [OF active_rows_are_rows])
qed (simp_all add: blocked_section_def idle_section_def completed_section_def statistics_def
      lane_section_def is_last_updated_def blocked_row_def idle_row_def completed_row_def
      lane_row_def Let_def filter_map o_def)

lemma board_header:
  "filter is_last_updated (fst (render L agents v)) = [LastUpdated (utc_z L (clock v (reads v)))]"
  by (simp add: render_fst sections_no_header is_last_updated_def)

lemma board_rows_spec:
  "filter is_active_row (fst (render L agents v))
     = spec_rows L (clock v) (Suc (reads v)) (filter is_active agents)"
  using active_rows_spec [of L "filter is_active agents" "v\<lparr>reads := Suc (reads v)\<rparr>"]
  by (simp add: board_active_rows)

lemma render_reads:
  "reads (snd (render L agents v))
     = Suc (reads v) + length (filter (reads_clock L) (filter is_active agents))"
  using active_rows_spec [of L "filter is_active agents" "v\<lparr>reads := Suc (reads v)\<rparr>"]
  by (simp add: render_snd)

text \<open>
  C8, amended. The timestamps of the board do not come from one reading of the clock.
  The header shows the reading taken when it is written. Each row of the Active Work
  table whose \<^verbatim>\<open>started\<close> is there, is not empty and parses takes the next reading, in the
  order of the table, and its duration is computed from that reading; rendering takes
  one reading and one more for each such row. The board of a run that succeeds is this
  rendering of the sorted records. Two runs that differ only in the clock, and whose
  clocks agree on every reading the run takes, end with the same exit status, the same
  board and the same console.
\<close>

theorem timestamps_read_the_clock_in_turn:
  "filter is_last_updated (fst (render L agents v)) = [LastUpdated (utc_z L (clock v (reads v)))]
   \<and> filter is_active_row (fst (render L agents v))
       = spec_rows L (clock v) (Suc (reads v)) (filter is_active agents)
   \<and> reads (snd (render L agents v))
       = Suc (reads v) + length (filter (reads_clock L) (filter is_active agents))
   \<and> (load_agents L (snd (ensure_dir L w)) = (Inr loaded, w1) \<and> sort_agents loaded = Inr ordered
        \<and> out_writable w1 \<longrightarrow>
          board (snd (main L w)) = Some (fst (render L ordered w1)) \<and> clock w1 = clock w)
   \<and> ((\<forall>n. reads w \<le> n \<and> n < reads (snd (main L w)) \<longrightarrow> c n = clock w n) \<longrightarrow>
          fst (main L (w\<lparr>clock := c\<rparr>)) = fst (main L w)
        \<and> board (snd (main L (w\<lparr>clock := c\<rparr>))) = board (snd (main L w))
        \<and> console (snd (main L (w\<lparr>clock := c\<rparr>))) = console (snd (main L w))
        \<and> reads (snd (main L (w\<lparr>clock := c\<rparr>))) = reads (snd (main L w)))"
proof (intro conjI impI)
  show "filter is_last_updated (fst (render L agents v))
      = [LastUpdated (utc_z L (clock v (reads v)))]"
    by (rule board_header)
  show "filter is_active_row (fst (render L agents v))
      = spec_rows L (clock v) (Suc (reads v)) (filter is_active agents)"
    by (rule board_rows_spec)
  show "reads (snd (render L agents v))
      = Suc (reads v) + length (filter (reads_clock L) (filter is_active agents))"
    by (rule render_reads)
next
  assume run: "load_agents L (snd (ensure_dir L w)) = (Inr loaded, w1)
      \<and> sort_agents loaded = Inr ordered \<and> out_writable w1"
  then show "board (snd (main L w)) = Some (fst (render L ordered w1))"
    by (simp add: board_of_run)
  from run load_stage_clock [of L w] show "clock w1 = clock w" by simp
next
  assume "\<forall>n. reads w \<le> n \<and> n < reads (snd (main L w)) \<longrightarrow> c n = clock w n"
  then have "agree c w (reads (snd (main L w)))" by (simp add: agree_def)
  from main_swap [OF this]
  show "fst (main L (w\<lparr>clock := c\<rparr>)) = fst (main L w)"
    and "board (snd (main L (w\<lparr>clock := c\<rparr>))) = board (snd (main L w))"
    and "console (snd (main L (w\<lparr>clock := c\<rparr>))) = console (snd (main L w))"
    and "reads (snd (main L (w\<lparr>clock := c\<rparr>))) = reads (snd (main L w))"
    by simp_all
qed

lemma busy_load:
  "load_agents sample_lib (snd (ensure_dir sample_lib busy_world)) = (Inr [JObj aware_agent], busy_world)"
  by (simp add: ensure_dir_def load_agents_def glob_json_def entries_def is_json_def
      busy_world_def sample_world_def aware_agent_def)

lemma busy_rows:
  "spec_rows sample_lib sample_clock (Suc 0) [aware_agent]
     = [ActiveRow ''a'' Arrows ''in_progress'' ''0123456789abcdefghijklmnopqrst''
          ''feature/a-branch-nam'' ''2024-01-01T10:00'' ''0:01:30'']"
  by (simp add: spec_row_def spec_duration_def aware_start_def whole_seconds_def
      aware_agent_def get_def get_or_def status_emoji_def sample_lib_def
      sample_fromisoformat_def sample_clock_def str_timedelta_def zero_pad_def digits.simps
      digit_char_def)

theorem timestamps_read_the_clock_in_turn_witness:
  "load_agents sample_lib (snd (ensure_dir sample_lib busy_world)) = (Inr [JObj aware_agent], busy_world)
   \<and> sort_agents [JObj aware_agent] = Inr [aware_agent]
   \<and> out_writable busy_world
   \<and> reads busy_world = 0
   \<and> reads (snd (main sample_lib busy_world)) = 2
   \<and> late_clock 0 = clock busy_world 0
   \<and> late_clock 1 = clock busy_world 1
   \<and> late_clock 2 \<noteq> clock busy_world 2
   \<and> filter is_last_updated (fst (render sample_lib [aware_agent] busy_world))
       = [LastUpdated ''2024-01-01T10:00:00Z'']
   \<and> filter is_active_row (fst (render sample_lib [aware_agent] busy_world))
       = [ActiveRow ''a'' Arrows ''in_progress'' ''0123456789abcdefghijklmnopqrst''
            ''feature/a-branch-nam'' ''2024-01-01T10:00'' ''0:01:30'']
   \<and> reads (snd (render sample_lib [aware_agent] busy_world)) = 2
   \<and> board (snd (main sample_lib busy_world))
       = Some (fst (render sample_lib [aware_agent] busy_world))
   \<and> fst (main sample_lib (busy_world\<lparr>clock := late_clock\<rparr>)) = 0
   \<and> board (snd (main sample_lib (busy_world\<lparr>clock := late_clock\<rparr>)))
       = Some [Title, LastUpdated ''2024-01-01T10:00:00Z'', TotalAgents 1,
               ActiveHead,
               ActiveRow ''a'' Arrows ''in_progress'' ''0123456789abcdefghijklmnopqrst''
                 ''feature/a-branch-nam'' ''2024-01-01T10:00'' ''0:01:30'',
               StatsHead, StatActive 1, StatBlocked 0, StatIdle 0, StatCompleted 0,
               LaneHead, LaneRow ''unknown'' 1 0 0 1]"
proof -
  have w: "reads busy_world = 0" "clock busy_world = sample_clock" "out_writable busy_world"
    by (simp_all add: busy_world_def sample_world_def)
  have k: "reads (snd (main sample_lib busy_world)) = 2" by (simp add: busy_run)
  have s: "sort_agents [JObj aware_agent] = Inr [aware_agent]" by (simp add: sort_agents_def)
  have a: "filter is_active [aware_agent] = [aware_agent]"
    by (simp add: is_active_def get_def aware_agent_def)
  have rc: "reads_clock sample_lib aware_agent"
    by (simp add: reads_clock_def get_def aware_agent_def sample_lib_def sample_fromisoformat_def)
  have z: "utc_z sample_lib (sample_clock 0) = ''2024-01-01T10:00:00Z''"
    by (simp add: utc_z_def sample_lib_def sample_isoformat_def sample_clock_def)
  have agreeing: "\<forall>n. reads busy_world \<le> n \<and> n < reads (snd (main sample_lib busy_world))
      \<longrightarrow> late_clock n = clock busy_world n"
    by (simp add: w k late_clock_def)
  have c: "late_clock 0 = clock busy_world 0" "late_clock 1 = clock busy_world 1"
    "late_clock 2 \<noteq> clock busy_world 2"
    by (simp_all add: w late_clock_def sample_clock_def)
  note t = timestamps_read_the_clock_in_turn [where L = sample_lib and agents = "[aware_agent]"
      and v = busy_world and w = busy_world and loaded = "[JObj aware_agent]"
      and ?w1.0 = busy_world and ordered = "[aware_agent]" and c = late_clock]
  have header: "filter is_last_updated (fst (render sample_lib [aware_agent] busy_world))
      = [LastUpdated ''2024-01-01T10:00:00Z'']"
    using t [THEN conjunct1] by (simp add: w z)
  have rows: "filter is_active_row (fst (render sample_lib [aware_agent] busy_world))
      = [ActiveRow ''a'' Arrows ''in_progress'' ''0123456789abcdefghijklmnopqrst''
           ''feature/a-branch-nam'' ''2024-01-01T10:00'' ''0:01:30'']"
    using t [THEN conjunct2, THEN conjunct1] unfolding a w
    by (simp only: busy_rows)
  have count: "reads (snd (render sample_lib [aware_agent] busy_world)) = 2"
    using t [THEN conjunct2, THEN conjunct2, THEN conjunct1] unfolding a w
    by (simp add: rc)
  from t busy_load s w(3)
  have board: "board (snd (main sample_lib busy_world))
      = Some (fst (render sample_lib [aware_agent] busy_world))"
    by blast
  from t agreeing
  have "fst (main sample_lib (busy_world\<lparr>clock := late_clock\<rparr>)) = fst (main sample_lib busy_world)
      \<and> board (snd (main sample_lib (busy_world\<lparr>clock := late_clock\<rparr>)))
          = board (snd (main sample_lib busy_world))"
    by blast
  then have same: "fst (main sample_lib (busy_world\<lparr>clock := late_clock\<rparr>)) = 0
      \<and> board (snd (main sample_lib (busy_world\<lparr>clock := late_clock\<rparr>)))
       = Some [Title, LastUpdated ''2024-01-01T10:00:00Z'', TotalAgents 1,
               ActiveHead,
               ActiveRow ''a'' Arrows ''in_progress'' ''0123456789abcdefghijklmnopqrst''
                 ''feature/a-branch-nam'' ''2024-01-01T10:00'' ''0:01:30'',
               StatsHead, StatActive 1, StatBlocked 0, StatIdle 0, StatCompleted 0,
               LaneHead, LaneRow ''unknown'' 1 0 0 1]"
    by (simp add: busy_run)
  from busy_load s w(3) w(1) k c header rows count board same show ?thesis by blast
qed

end
